theory Spec2Isabelle
  imports Main "HOL-Library.Log_Nat"
begin


section \<open>JavaScript numbers\<close>

text \<open>
  The renderer computes on JavaScript Numbers: IEEE 754 binary64 values. A finite value is
  carried as the rational it denotes; the two infinities and NaN are separate values, so
  that a division by zero yields what the program yields and not HOL's \<open>x / 0 = 0\<close>.
  Every arithmetic operation on finite operands rounds its exact result to the nearest
  binary64 value, ties to even, and overflows to an infinity (\<open>fl\<close>).

  The sign of a zero is not tracked. In \<open>handleSensorData\<close> it could only decide the sign of
  an infinite quotient, and every quotient there passes through \<open>Math.abs\<close> before it is
  compared or stored; \<open>toFixed\<close> prints both zeros alike.
\<close>

datatype jsnum = Fin rat | PosInf | NegInf | NaN

definition pow2 :: "int \<Rightarrow> rat" where
  "pow2 k = (if 0 \<le> k then 2 ^ nat k else 1 / 2 ^ nat (- k))"

definition ilog2 :: "rat \<Rightarrow> int" where
  \<comment> \<open>for \<open>0 < x\<close>: the \<open>k\<close> with \<open>2^k \<le> x < 2^(k+1)\<close>\<close>
  "ilog2 x = (if 1 \<le> x then bitlen \<lfloor>x\<rfloor> - 1 else - bitlen (\<lceil>1 / x\<rceil> - 1))"

definition roundHalfEven :: "rat \<Rightarrow> int" where
  "roundHalfEven m =
     (let f = \<lfloor>m\<rfloor>; d = m - of_int f
      in if d < 1 / 2 then f
         else if 1 / 2 < d then f + 1
         else if even f then f else f + 1)"

fun jsneg :: "jsnum \<Rightarrow> jsnum" where
  "jsneg (Fin x) = Fin (- x)"
| "jsneg PosInf = NegInf"
| "jsneg NegInf = PosInf"
| "jsneg NaN = NaN"

definition flPos :: "rat \<Rightarrow> jsnum" where
  \<comment> \<open>for \<open>0 < x\<close>: 53 significant bits, least exponent \<open>-1022\<close>, overflow at \<open>2^1024\<close>\<close>
  "flPos x =
     (let q = max (ilog2 x) (- 1022) - 52;
          r = of_int (roundHalfEven (x / pow2 q)) * pow2 q
      in if pow2 1024 \<le> r then PosInf else Fin r)"

definition fl :: "rat \<Rightarrow> jsnum" where
  "fl x = (if x = 0 then Fin 0 else if x < 0 then jsneg (flPos (- x)) else flPos x)"

definition infinity :: "bool \<Rightarrow> jsnum" where
  \<comment> \<open>the infinity of the given sign, \<open>True\<close> for negative\<close>
  "infinity negative = (if negative then NegInf else PosInf)"

fun isNegative :: "jsnum \<Rightarrow> bool" where
  "isNegative (Fin x) = (x < 0)"
| "isNegative NegInf = True"
| "isNegative _ = False"

fun jssub :: "jsnum \<Rightarrow> jsnum \<Rightarrow> jsnum" where
  "jssub NaN _ = NaN"
| "jssub _ NaN = NaN"
| "jssub (Fin x) (Fin y) = fl (x - y)"
| "jssub (Fin x) b = jsneg b"
| "jssub a (Fin y) = a"
| "jssub a b = (if a = b then NaN else a)"

fun jsmul :: "jsnum \<Rightarrow> jsnum \<Rightarrow> jsnum" where
  "jsmul NaN _ = NaN"
| "jsmul _ NaN = NaN"
| "jsmul (Fin x) (Fin y) = fl (x * y)"
| "jsmul (Fin x) b = (if x = 0 then NaN else infinity ((x < 0) \<noteq> isNegative b))"
| "jsmul a (Fin y) = (if y = 0 then NaN else infinity (isNegative a \<noteq> (y < 0)))"
| "jsmul a b = infinity (isNegative a \<noteq> isNegative b)"

fun jsdiv :: "jsnum \<Rightarrow> jsnum \<Rightarrow> jsnum" where
  "jsdiv NaN _ = NaN"
| "jsdiv _ NaN = NaN"
| "jsdiv (Fin x) (Fin y) =
     (if y = 0 then (if x = 0 then NaN else infinity (x < 0)) else fl (x / y))"
| "jsdiv (Fin x) b = Fin 0"
| "jsdiv a (Fin y) = infinity (isNegative a \<noteq> (y < 0))"
| "jsdiv a b = NaN"

fun jsabs :: "jsnum \<Rightarrow> jsnum" where
  "jsabs (Fin x) = Fin \<bar>x\<bar>"
| "jsabs PosInf = PosInf"
| "jsabs NegInf = PosInf"
| "jsabs NaN = NaN"

fun jslt :: "jsnum \<Rightarrow> jsnum \<Rightarrow> bool" where
  "jslt NaN _ = False"
| "jslt _ NaN = False"
| "jslt (Fin x) (Fin y) = (x < y)"
| "jslt a PosInf = (a \<noteq> PosInf)"
| "jslt NegInf b = (b \<noteq> NegInf)"
| "jslt _ _ = False"

definition jsgt :: "jsnum \<Rightarrow> jsnum \<Rightarrow> bool" where
  "jsgt a b = jslt b a"

definition jsmin :: "jsnum \<Rightarrow> jsnum \<Rightarrow> jsnum" where
  \<comment> \<open>\<open>Math.min\<close>: NaN if either argument is NaN\<close>
  "jsmin a b = (if a = NaN \<or> b = NaN then NaN else if jslt b a then b else a)"

definition jsmax :: "jsnum \<Rightarrow> jsnum \<Rightarrow> jsnum" where
  \<comment> \<open>\<open>Math.max\<close>: NaN if either argument is NaN\<close>
  "jsmax a b = (if a = NaN \<or> b = NaN then NaN else if jslt a b then b else a)"

subsection \<open>\<open>Number.prototype.toFixed\<close>\<close>

text \<open>
  \<open>x.toFixed(d)\<close> prints the integer nearest to \<open>x * 10^d\<close> (the larger one on a tie) with a
  point before its last \<open>d\<close> digits, the sign taken from \<open>x < 0\<close> before rounding. From
  \<open>10^21\<close> on it returns \<open>ToString(x)\<close>, an exponent form that is not expanded here: the
  result is then \<open>ToString x\<close>.
\<close>

datatype fixed = Fixed string | ToString jsnum

fun digitsOf :: "nat \<Rightarrow> string" where
  "digitsOf n =
     (if n < 10 then [''0123456789'' ! n]
      else digitsOf (n div 10) @ [''0123456789'' ! (n mod 10)])"

declare digitsOf.simps [simp del]

definition pointBefore :: "nat \<Rightarrow> string \<Rightarrow> string" where
  "pointBefore d s =
     (let p = replicate (Suc d - length s) CHR ''0'' @ s
      in if d = 0 then p else take (length p - d) p @ ''.'' @ drop (length p - d) p)"

fun toFixed :: "nat \<Rightarrow> jsnum \<Rightarrow> fixed" where
  "toFixed d NaN = Fixed ''NaN''"
| "toFixed d PosInf = Fixed ''Infinity''"
| "toFixed d NegInf = Fixed ''-Infinity''"
| "toFixed d (Fin x) =
     (if 10 ^ 21 \<le> \<bar>x\<bar> then ToString (Fin x)
      else Fixed ((if x < 0 then ''-'' else [])
                  @ pointBefore d (digitsOf (nat \<lfloor>\<bar>x\<bar> * 10 ^ d + 1 / 2\<rfloor>))))"

section \<open>The renderer's state\<close>

text \<open>
  The component \<open>App\<close> keeps React state (\<open>useState\<close>) and two refs (\<open>useRef\<close>):
  \<open>lastValues\<close> and \<open>activeFlickers\<close>, objects with one entry per sensor, \<open>null\<close> modelled
  as \<open>None\<close>. An object indexed by the sensor id is a function of the sensor id.
  A timestamp (\<open>new Date().toISOString()\<close>, read back with \<open>new Date(...)\<close>) is the number
  of milliseconds it stands for.
\<close>

datatype sensorId = sensor1 | sensor2

record FlickerRun =
  startTime :: int
  initialValue :: jsnum
  minValue :: jsnum
  maxPercentChange :: jsnum

text \<open>The object \<open>flickerData\<close> sent on the channel \<open>log-flicker\<close>, field by field.\<close>

record flickerData =
  sensor :: sensorId
  fdStartTime :: int
  endTime :: int
  duration :: fixed
  fdInitialValue :: fixed
  minimumValue :: fixed
  percentChange :: fixed

text \<open>The array \<open>logData\<close> sent on the channel \<open>log-data\<close>, entry by entry.\<close>

record logData =
  logTime :: int
  logSensor1 :: fixed
  logSensor2 :: fixed
  activeFlickerS1 :: bool
  activeFlickerS2 :: bool

datatype invocation = LogFlicker flickerData | LogData logData

text \<open>
  A recipe step is an object \<open>{type: ...}\<close>, for \<open>delay\<close> with a \<open>duration\<close> in seconds
  (the builder only adds \<open>duration: 5\<close>).
\<close>

datatype step =
  startFlicker | endFlicker | connectUSB | disconnectUSB | sleep | wake | delay nat

record app =
  isConnected :: bool
  status :: string
  sensorData :: "sensorId \<Rightarrow> jsnum"
  recipe :: "step list"
  isRunningRecipe :: bool
  isFlickerDetectionRunning :: bool
  flickerCount :: "sensorId \<Rightarrow> nat"
  lastValues :: "sensorId \<Rightarrow> jsnum option"
  activeFlickers :: "sensorId \<Rightarrow> FlickerRun option"

definition FLICKER_THRESHOLD :: jsnum where
  "FLICKER_THRESHOLD = Fin 1"

section \<open>Flicker detection: \<open>handleSensorData\<close>\<close>

text \<open>
  The body of \<open>if (lastValue !== null) { ... }\<close> for one sensor, as a function of the
  sensor's entry of \<open>activeFlickers\<close>: the entry afterwards and the \<open>flickerData\<close> logged, if
  any. Its parts are named after the comments of the source: \<open>Check for start of flicker\<close>,
  \<open>Update active flicker\<close>, \<open>Check for end of flicker\<close>, \<open>Log flicker event\<close>. A logged event is
  also the one place where the sensor's count goes up.
\<close>

definition percentChangeOf :: "jsnum \<Rightarrow> jsnum \<Rightarrow> jsnum" where
  \<comment> \<open>\<open>((lastValue - currentValue) / lastValue) * 100\<close>\<close>
  "percentChangeOf lastValue currentValue =
     jsmul (jsdiv (jssub lastValue currentValue) lastValue) (Fin 100)"

definition returnPercentChangeOf :: "jsnum \<Rightarrow> jsnum \<Rightarrow> jsnum" where
  \<comment> \<open>\<open>Math.abs((currentValue - flicker.initialValue) / flicker.initialValue) * 100\<close>\<close>
  "returnPercentChangeOf currentValue initial =
     jsmul (jsabs (jsdiv (jssub currentValue initial) initial)) (Fin 100)"

definition startOfFlicker ::
  "int \<Rightarrow> jsnum \<Rightarrow> jsnum \<Rightarrow> FlickerRun option \<Rightarrow> FlickerRun option" where
  "startOfFlicker timestamp lastValue currentValue active =
     (if jsgt (jsabs (percentChangeOf lastValue currentValue)) FLICKER_THRESHOLD
         \<and> active = None
      then Some \<lparr>startTime = timestamp, initialValue = lastValue, minValue = currentValue,
                  maxPercentChange = jsabs (percentChangeOf lastValue currentValue)\<rparr>
      else active)"

definition updateFlicker :: "jsnum \<Rightarrow> jsnum \<Rightarrow> FlickerRun \<Rightarrow> FlickerRun" where
  "updateFlicker lastValue currentValue flicker =
     flicker\<lparr>minValue := jsmin (minValue flicker) currentValue,
             maxPercentChange :=
               jsmax (maxPercentChange flicker) (jsabs (percentChangeOf lastValue currentValue))\<rparr>"

definition endOfFlicker :: "jsnum \<Rightarrow> FlickerRun \<Rightarrow> bool" where
  "endOfFlicker currentValue flicker =
     jslt (returnPercentChangeOf currentValue (initialValue flicker)) FLICKER_THRESHOLD"

definition mkFlickerData :: "sensorId \<Rightarrow> int \<Rightarrow> FlickerRun \<Rightarrow> flickerData" where
  "mkFlickerData sensorId timestamp flicker =
     \<lparr>sensor = sensorId,
      fdStartTime = startTime flicker,
      endTime = timestamp,
      duration = toFixed 3 (jsdiv (jssub (Fin (of_int timestamp))
                                         (Fin (of_int (startTime flicker)))) (Fin 1000)),
      fdInitialValue = toFixed 3 (initialValue flicker),
      minimumValue = toFixed 3 (minValue flicker),
      percentChange = toFixed 2 (maxPercentChange flicker)\<rparr>"

definition evaluate ::
  "sensorId \<Rightarrow> int \<Rightarrow> jsnum \<Rightarrow> jsnum \<Rightarrow> FlickerRun option
     \<Rightarrow> FlickerRun option \<times> flickerData option" where
  "evaluate sensorId timestamp lastValue currentValue active =
     (case startOfFlicker timestamp lastValue currentValue active of
        None \<Rightarrow> (None, None)
      | Some flicker0 \<Rightarrow>
          (let flicker = updateFlicker lastValue currentValue flicker0
           in if endOfFlicker currentValue flicker
              then (None, Some (mkFlickerData sensorId timestamp flicker))
              else (Some flicker, None)))"

text \<open>The callback of \<open>['sensor1', 'sensor2'].forEach\<close>, on the state and the invocations so far.\<close>

definition processSensor ::
  "int \<Rightarrow> (sensorId \<Rightarrow> jsnum) \<Rightarrow> sensorId \<Rightarrow> app \<times> invocation list
     \<Rightarrow> app \<times> invocation list" where
  "processSensor timestamp data sensorId so =
     (let s = fst so; out = snd so; currentValue = data sensorId
      in case lastValues s sensorId of
           None \<Rightarrow> (s\<lparr>lastValues := (lastValues s)(sensorId := Some currentValue)\<rparr>, out)
         | Some lastValue \<Rightarrow>
             (case evaluate sensorId timestamp lastValue currentValue
                     (activeFlickers s sensorId) of
                (active, None) \<Rightarrow>
                  (s\<lparr>activeFlickers := (activeFlickers s)(sensorId := active),
                     lastValues := (lastValues s)(sensorId := Some currentValue)\<rparr>, out)
              | (active, Some fd) \<Rightarrow>
                  (s\<lparr>activeFlickers := (activeFlickers s)(sensorId := active),
                     flickerCount :=
                       (flickerCount s)(sensorId := flickerCount s sensorId + 1),
                     lastValues := (lastValues s)(sensorId := Some currentValue)\<rparr>,
                   out @ [LogFlicker fd])))"

text \<open>
  \<open>handleSensorData\<close> reads \<open>isFlickerDetectionRunning\<close> from the closure it was created in:
  the argument \<open>running\<close>. The event argument is not used.
\<close>

definition handleSensorData ::
  "bool \<Rightarrow> int \<Rightarrow> (sensorId \<Rightarrow> jsnum) \<Rightarrow> app \<Rightarrow> app \<times> invocation list" where
  "handleSensorData running timestamp data s0 =
     (let s = s0\<lparr>sensorData := data\<rparr>
      in if running
         then (let so = processSensor timestamp data sensor2
                          (processSensor timestamp data sensor1 (s, []));
                   s' = fst so
               in (s', snd so @
                       [LogData \<lparr>logTime = timestamp,
                                 logSensor1 = toFixed 3 (data sensor1),
                                 logSensor2 = toFixed 3 (data sensor2),
                                 activeFlickerS1 = (activeFlickers s' sensor1 \<noteq> None),
                                 activeFlickerS2 = (activeFlickers s' sensor2 \<noteq> None)\<rparr>]))
         else (s, []))"

definition resetFlickerDetection :: "app \<Rightarrow> app" where
  "resetFlickerDetection s =
     s\<lparr>lastValues := (\<lambda>_. None), activeFlickers := (\<lambda>_. None), flickerCount := (\<lambda>_. 0)\<rparr>"

text \<open>
  The \<open>sensor-data\<close> events of a session, delivered in order: each is a timestamp and the
  object \<open>{sensor1, sensor2}\<close>. The invocations of all of them are collected in order.
\<close>

fun deliver ::
  "bool \<Rightarrow> (int \<times> (sensorId \<Rightarrow> jsnum)) list \<Rightarrow> app \<Rightarrow> app \<times> invocation list" where
  "deliver running [] s = (s, [])"
| "deliver running (e # es) s =
     (let r = handleSensorData running (fst e) (snd e) s;
          r' = deliver running es (fst r)
      in (fst r', snd r @ snd r'))"

definition readings :: "jsnum \<Rightarrow> jsnum \<Rightarrow> sensorId \<Rightarrow> jsnum" where
  \<comment> \<open>the object \<open>{sensor1: a, sensor2: b}\<close>\<close>
  "readings a b sensorId = (case sensorId of sensor1 \<Rightarrow> a | sensor2 \<Rightarrow> b)"

definition initialApp :: app where
  \<comment> \<open>the \<open>useState\<close> and \<open>useRef\<close> initial values\<close>
  "initialApp =
     \<lparr>isConnected = False, status = ''Disconnected'', sensorData = (\<lambda>_. Fin 0),
      recipe = [], isRunningRecipe = False, isFlickerDetectionRunning = False,
      flickerCount = (\<lambda>_. 0), lastValues = (\<lambda>_. None), activeFlickers = (\<lambda>_. None)\<rparr>"

text \<open>The \<open>flickerData\<close> objects logged for one sensor, in order.\<close>

fun eventsOf :: "sensorId \<Rightarrow> invocation list \<Rightarrow> flickerData list" where
  "eventsOf sid [] = []"
| "eventsOf sid (LogFlicker fd # out) =
     (if sensor fd = sid then fd # eventsOf sid out else eventsOf sid out)"
| "eventsOf sid (LogData row # out) = eventsOf sid out"


definition receive ::
  "(int \<times> (sensorId \<Rightarrow> jsnum)) list \<Rightarrow> app \<Rightarrow> app \<times> invocation list" where
  "receive = deliver (isFlickerDetectionRunning initialApp)"

text \<open>
  A run closes at an event when the sensor's entry of \<open>activeFlickers\<close> holds a run before
  the event and \<open>null\<close> after it. \<open>closedRuns\<close> counts the events of a list at which a run of
  the sensor closes.
\<close>

definition closesRun :: "sensorId \<Rightarrow> app \<Rightarrow> app \<Rightarrow> bool" where
  "closesRun sid s s' = (activeFlickers s sid \<noteq> None \<and> activeFlickers s' sid = None)"

fun closedRuns ::
  "bool \<Rightarrow> sensorId \<Rightarrow> (int \<times> (sensorId \<Rightarrow> jsnum)) list \<Rightarrow> app \<Rightarrow> nat" where
  "closedRuns running sid [] s = 0"
| "closedRuns running sid (e # es) s =
     (if closesRun sid s (fst (handleSensorData running (fst e) (snd e) s)) then 1 else 0)
     + closedRuns running sid es (fst (handleSensorData running (fst e) (snd e) s))"

text \<open>
  What one \<open>sensor-data\<close> event does to one sensor's entry of \<open>activeFlickers\<close>, given the
  sensor's entry of \<open>lastValues\<close>: nothing when that is \<open>null\<close>, \<open>evaluate\<close> otherwise.
\<close>

definition channelStep ::
  "sensorId \<Rightarrow> int \<Rightarrow> jsnum \<Rightarrow> jsnum option \<Rightarrow> FlickerRun option
     \<Rightarrow> FlickerRun option \<times> flickerData option" where
  "channelStep sid timestamp currentValue lastValue0 active =
     (case lastValue0 of
        None \<Rightarrow> (active, None)
      | Some lastValue \<Rightarrow> evaluate sid timestamp lastValue currentValue active)"

text \<open>
  A session of four \<open>sensor-data\<close> events, 100 ms apart, in which sensor 1 reads
  100, 100, 80, 100 and sensor 2 stays at 7; and one of three events in which sensor 1
  reads 0, 5, 0.
\<close>

definition dipSession :: "(int \<times> (sensorId \<Rightarrow> jsnum)) list" where
  "dipSession =
     [(0, readings (Fin 100) (Fin 7)), (100, readings (Fin 100) (Fin 7)),
      (200, readings (Fin 80) (Fin 7)), (300, readings (Fin 100) (Fin 7))]"


section \<open>The main process: \<open>main.js\<close>\<close>

text \<open>
  The renderer reaches the main process with \<open>ipcRenderer.invoke(channel, arg)\<close>. Each handler
  of \<open>main.js\<close> wraps its body in \<open>try/catch\<close> and returns an object \<open>{success, error}\<close>; it
  never throws. What the serial port and the file system answer is given from outside:
  \<open>writeError\<close> is the error, if any, that \<open>serialPort.write\<close> hands to its callback for the
  given data, \<open>logSetupError\<close> the one that creating the log files throws. The periodic
  write of \<open>s\<close> on \<open>dataInterval\<close> is not modelled.
\<close>

datatype channel = send_command | start_flicker_detection | stop_flicker_detection

record reply =
  success :: bool
  error :: "string option"

record mainState =
  portOpen :: bool
  isFlickerDetectionActive :: bool
  serialWrites :: "string list"

record env =
  writeError :: "string \<Rightarrow> string option"
  logSetupError :: "string option"

definition succeeded :: reply where
  "succeeded = \<lparr>success = True, error = None\<rparr>"

definition failed :: "string \<Rightarrow> reply" where
  "failed message = \<lparr>success = False, error = Some message\<rparr>"

definition sendCommandHandler :: "env \<Rightarrow> string \<Rightarrow> mainState \<Rightarrow> reply \<times> mainState" where
  "sendCommandHandler e command m =
     (if \<not> portOpen m then (failed ''Serial port is not open'', m)
      else case writeError e (command @ [CHR 0x0A]) of
             Some message \<Rightarrow> (failed message, m)
           | None \<Rightarrow> (succeeded, m\<lparr>serialWrites := serialWrites m @ [command @ [CHR 0x0A]]\<rparr>))"

definition startFlickerDetectionHandler :: "env \<Rightarrow> mainState \<Rightarrow> reply \<times> mainState" where
  "startFlickerDetectionHandler e m =
     (if \<not> portOpen m then (failed ''Serial port is not connected'', m)
      else case logSetupError e of
             Some message \<Rightarrow> (failed message, m)
           | None \<Rightarrow> (succeeded, m\<lparr>isFlickerDetectionActive := True\<rparr>))"

definition stopFlickerDetectionHandler :: "mainState \<Rightarrow> reply \<times> mainState" where
  "stopFlickerDetectionHandler m = (succeeded, m\<lparr>isFlickerDetectionActive := False\<rparr>)"

text \<open>
  The promise of \<open>invoke\<close> settles with \<open>Inr reply\<close> when it resolves and with \<open>Inl message\<close>
  when it rejects. With the handlers of \<open>main.js\<close> it always resolves.
\<close>

type_synonym 'm ipc = "channel \<Rightarrow> string \<Rightarrow> 'm \<Rightarrow> (string + reply) \<times> 'm"

definition mainInvoke :: "env \<Rightarrow> mainState ipc" where
  "mainInvoke e ch arg m =
     (case ch of
        send_command \<Rightarrow> (let r = sendCommandHandler e arg m in (Inr (fst r), snd r))
      | start_flicker_detection \<Rightarrow>
          (let r = startFlickerDetectionHandler e m in (Inr (fst r), snd r))
      | stop_flicker_detection \<Rightarrow>
          (let r = stopFlickerDetectionHandler m in (Inr (fst r), snd r)))"

section \<open>The recipe: \<open>runRecipe\<close>\<close>

text \<open>
  The renderer together with the main process it talks to. \<open>trace\<close> is a log, kept for the
  proofs only, of what a recipe does that can be seen from outside, in order: the
  invocations it awaits and the timers (\<open>setTimeout\<close>, in milliseconds) it awaits.
\<close>

datatype event = Invoke channel string | Timeout nat

record 'm world =
  renderer :: app
  mainProc :: 'm
  trace :: "event list"

definition awaitInvoke :: "'m ipc \<Rightarrow> channel \<Rightarrow> string \<Rightarrow> 'm world \<Rightarrow> (string + reply) \<times> 'm world" where
  "awaitInvoke invoke ch arg w =
     (let r = invoke ch arg (mainProc w)
      in (fst r, w\<lparr>mainProc := snd r, trace := trace w @ [Invoke ch arg]\<rparr>))"

definition awaitTimeout :: "nat \<Rightarrow> 'm world \<Rightarrow> 'm world" where
  "awaitTimeout ms w = w\<lparr>trace := trace w @ [Timeout ms]\<rparr>"

definition onRenderer :: "(app \<Rightarrow> app) \<Rightarrow> 'm world \<Rightarrow> 'm world" where
  "onRenderer f w = w\<lparr>renderer := f (renderer w)\<rparr>"

definition setStatus :: "string \<Rightarrow> 'm world \<Rightarrow> 'm world" where
  "setStatus text = onRenderer (\<lambda>a. a\<lparr>status := text\<rparr>)"

definition setIsRunningRecipe :: "bool \<Rightarrow> 'm world \<Rightarrow> 'm world" where
  "setIsRunningRecipe b = onRenderer (\<lambda>a. a\<lparr>isRunningRecipe := b\<rparr>)"

definition setIsFlickerDetectionRunning :: "bool \<Rightarrow> 'm world \<Rightarrow> 'm world" where
  "setIsFlickerDetectionRunning b = onRenderer (\<lambda>a. a\<lparr>isFlickerDetectionRunning := b\<rparr>)"

definition errorText :: "reply \<Rightarrow> string" where
  \<comment> \<open>\<open>`Error: ${result.error}`\<close>\<close>
  "errorText result =
     ''Error: '' @ (case error result of None \<Rightarrow> ''undefined'' | Some message \<Rightarrow> message)"

text \<open>
  \<open>toggleFlickerDetection\<close> and \<open>runRecipe\<close> are closures of one render: the
  \<open>isFlickerDetectionRunning\<close> they read is the constant of that render, the argument
  \<open>running\<close>, whatever \<open>setIsFlickerDetectionRunning\<close> has been called with since. A function
  returns \<open>Inl message\<close> when it throws, here when an awaited promise rejects.
\<close>

definition toggleFlickerDetection :: "'m ipc \<Rightarrow> bool \<Rightarrow> 'm world \<Rightarrow> (string + unit) \<times> 'm world" where
  "toggleFlickerDetection invoke running w =
     (if \<not> running
      then (case awaitInvoke invoke start_flicker_detection [] w of
              (Inl message, w') \<Rightarrow> (Inl message, w')
            | (Inr result, w') \<Rightarrow>
                if success result
                then (Inr (),
                      onRenderer resetFlickerDetection
                        (setStatus ''Flicker Detection Running''
                           (setIsFlickerDetectionRunning True w')))
                else (Inr (), setStatus (errorText result) w'))
      else (case awaitInvoke invoke stop_flicker_detection [] w of
              (Inl message, w') \<Rightarrow> (Inl message, w')
            | (Inr result, w') \<Rightarrow>
                if success result
                then (Inr (),
                      setStatus ''Flicker Detection Stopped''
                        (setIsFlickerDetectionRunning False w'))
                else (Inr (), setStatus (errorText result) w')))"

definition sendCommand :: "'m ipc \<Rightarrow> string \<Rightarrow> 'm world \<Rightarrow> (string + unit) \<times> 'm world" where
  \<comment> \<open>\<open>await ipcRenderer.invoke('send-command', c)\<close>, the result dropped\<close>
  "sendCommand invoke c w =
     (case awaitInvoke invoke send_command c w of
        (Inl message, w') \<Rightarrow> (Inl message, w')
      | (Inr result, w') \<Rightarrow> (Inr (), w'))"

text \<open>The \<open>switch (step.type)\<close>.\<close>

fun runStep :: "'m ipc \<Rightarrow> bool \<Rightarrow> step \<Rightarrow> 'm world \<Rightarrow> (string + unit) \<times> 'm world" where
  "runStep invoke running startFlicker w =
     (if \<not> running then toggleFlickerDetection invoke running w else (Inr (), w))"
| "runStep invoke running endFlicker w =
     (if running then toggleFlickerDetection invoke running w else (Inr (), w))"
| "runStep invoke running connectUSB w = sendCommand invoke ''c'' w"
| "runStep invoke running disconnectUSB w = sendCommand invoke ''d'' w"
| "runStep invoke running sleep w = sendCommand invoke ''s'' w"
| "runStep invoke running wake w = sendCommand invoke ''w'' w"
| "runStep invoke running (delay d) w = (Inr (), awaitTimeout (d * 1000) w)"

text \<open>
  The body of \<open>for (const step of recipe)\<close>: the \<open>switch\<close> and the 100 ms timer inside \<open>try\<close>,
  the status and \<open>break\<close> in \<open>catch\<close>. The result says whether the loop goes on.
\<close>

definition iteration :: "'m ipc \<Rightarrow> bool \<Rightarrow> step \<Rightarrow> 'm world \<Rightarrow> bool \<times> 'm world" where
  "iteration invoke running st w =
     (case runStep invoke running st w of
        (Inl message, w') \<Rightarrow> (False, setStatus (''Recipe Error: '' @ message) w')
      | (Inr u, w') \<Rightarrow> (True, awaitTimeout 100 w'))"

fun runSteps :: "'m ipc \<Rightarrow> bool \<Rightarrow> step list \<Rightarrow> 'm world \<Rightarrow> 'm world" where
  "runSteps invoke running [] w = w"
| "runSteps invoke running (st # rest) w =
     (let r = iteration invoke running st w
      in if fst r then runSteps invoke running rest (snd r) else snd r)"

definition runRecipe :: "'m ipc \<Rightarrow> 'm world \<Rightarrow> 'm world" where
  "runRecipe invoke w =
     setIsRunningRecipe False
       (runSteps invoke (isFlickerDetectionRunning (renderer w)) (recipe (renderer w))
          (setIsRunningRecipe True w))"

definition addRecipeStep :: "step \<Rightarrow> 'm world \<Rightarrow> 'm world" where
  "addRecipeStep st = onRenderer (\<lambda>a. a\<lparr>recipe := recipe a @ [st]\<rparr>)"

text \<open>
  What a step awaits when every invocation resolves, read off the step alone, and what a
  whole recipe then awaits: each step's own events and the 100 ms timer, in the order of the
  recipe.
\<close>

fun stepEvents :: "bool \<Rightarrow> step \<Rightarrow> event list" where
  "stepEvents running startFlicker =
     (if running then [] else [Invoke start_flicker_detection []])"
| "stepEvents running endFlicker =
     (if running then [Invoke stop_flicker_detection []] else [])"
| "stepEvents running connectUSB = [Invoke send_command ''c'']"
| "stepEvents running disconnectUSB = [Invoke send_command ''d'']"
| "stepEvents running sleep = [Invoke send_command ''s'']"
| "stepEvents running wake = [Invoke send_command ''w'']"
| "stepEvents running (delay d) = [Timeout (d * 1000)]"

definition recipeEvents :: "bool \<Rightarrow> step list \<Rightarrow> event list" where
  "recipeEvents running steps = concat (map (\<lambda>st. stepEvents running st @ [Timeout 100]) steps)"

definition resolves :: "'m ipc \<Rightarrow> bool" where
  "resolves invoke = (\<forall>ch arg m. \<exists>r. fst (invoke ch arg m) = Inr r)"

section \<open>Recipes in flight\<close>

text \<open>
  \<open>runRecipe\<close> is \<open>async\<close>: between two of its loop iterations other handlers run, among
  them the click on the button \<open>Run Recipe\<close>. \<open>runRecipe\<close> itself checks nothing before it
  starts. The button has \<open>onClick={runRecipe}\<close> and
  \<open>disabled={isRunningRecipe || recipe.length === 0}\<close>: both are those of the last render, so
  a click meets the \<open>isRunningRecipe\<close>, the \<open>recipe\<close> and the \<open>isFlickerDetectionRunning\<close> of
  the state that was rendered last, not those of the state as it is. A machine is the world,
  the state as rendered last, and the calls of \<open>runRecipe\<close> that have started and not
  returned, each with the \<open>isFlickerDetectionRunning\<close> and the steps it still has to run.
\<close>

record 'm machine =
  world :: "'m world"
  rendered :: app
  tasks :: "(bool \<times> step list) list"


definition clickRunRecipe :: "'m machine \<Rightarrow> 'm machine" where
  "clickRunRecipe M =
     (if isRunningRecipe (rendered M) \<or> recipe (rendered M) = [] then M
      else M\<lparr>world := setIsRunningRecipe True (world M),
             tasks := tasks M @ [(isFlickerDetectionRunning (rendered M), recipe (rendered M))]\<rparr>)"

definition finish :: "nat \<Rightarrow> 'm machine \<Rightarrow> 'm machine" where
  \<comment> \<open>the loop is left: \<open>setIsRunningRecipe(false)\<close>, and the call returns\<close>
  "finish i M =
     M\<lparr>world := setIsRunningRecipe False (world M),
       tasks := take i (tasks M) @ drop (Suc i) (tasks M)\<rparr>"

definition resume :: "'m ipc \<Rightarrow> nat \<Rightarrow> 'm machine \<Rightarrow> 'm machine" where
  \<comment> \<open>the call at position \<open>i\<close> runs its next loop iteration\<close>
  "resume invoke i M =
     (case tasks M ! i of
        (running, []) \<Rightarrow> finish i M
      | (running, st # rest) \<Rightarrow>
          (let r = iteration invoke running st (world M)
           in if fst r \<and> rest \<noteq> []
              then M\<lparr>world := snd r, tasks := (tasks M)[i := (running, rest)]\<rparr>
              else finish i (M\<lparr>world := snd r\<rparr>)))"

text \<open>A call of \<open>runRecipe\<close> left alone: \<open>n\<close> times, its next loop iteration.\<close>

fun drive :: "'m ipc \<Rightarrow> nat \<Rightarrow> 'm machine \<Rightarrow> 'm machine" where
  "drive invoke 0 M = M"
| "drive invoke (Suc n) M = (if tasks M = [] then M else drive invoke n (resume invoke 0 M))"

text \<open>
  A serial port and a file system that raise no error; the main process before any port
  has been opened; and the renderer as it starts, with a recipe in the builder.
\<close>

definition quietEnv :: env where
  "quietEnv = \<lparr>writeError = (\<lambda>_. None), logSetupError = None\<rparr>"

definition closedPort :: mainState where
  "closedPort = \<lparr>portOpen = False, isFlickerDetectionActive = False, serialWrites = []\<rparr>"

definition recipeWorld :: "step list \<Rightarrow> mainState world" where
  "recipeWorld steps =
     \<lparr>renderer = initialApp\<lparr>recipe := steps\<rparr>, mainProc = closedPort, trace = []\<rparr>"


text \<open>
  A session started by the code itself: a port is open and \<open>toggleConnection\<close> has set
  \<open>isConnected\<close> and the status \<open>Connected\<close>; then \<open>toggleFlickerDetection\<close> runs, as the
  button \<open>Start Flicker Detection\<close> calls it.
\<close>

definition openPort :: mainState where
  "openPort = \<lparr>portOpen = True, isFlickerDetectionActive = False, serialWrites = []\<rparr>"

definition connectedWorld :: "mainState world" where
  "connectedWorld =
     \<lparr>renderer = initialApp\<lparr>isConnected := True, status := ''Connected''\<rparr>,
      mainProc = openPort, trace = []\<rparr>"

definition startedSession :: "mainState world" where
  "startedSession =
     snd (toggleFlickerDetection (mainInvoke quietEnv)
            (isFlickerDetectionRunning (renderer connectedWorld)) connectedWorld)"

section \<open>Facts about the number operations\<close>

lemma pow2_pos: "0 < pow2 k"
  by (simp add: pow2_def)

lemma roundHalfEven_nonneg: "0 \<le> m \<Longrightarrow> 0 \<le> roundHalfEven m"
  by (auto simp: roundHalfEven_def Let_def intro: add_nonneg_nonneg)

lemma jsneg_jsneg: "jsneg (jsneg a) = a"
  by (cases a) simp_all

lemma jsabs_jsneg: "jsabs (jsneg a) = jsabs a"
  by (cases a) simp_all

lemma jsabs_flPos: "0 < x \<Longrightarrow> jsabs (flPos x) = flPos x"
proof -
  assume x: "0 < x"
  define q where "q = max (ilog2 x) (- 1022) - 52"
  have "0 \<le> x / pow2 q"
    using x pow2_pos [of q] by simp
  then have "0 \<le> roundHalfEven (x / pow2 q)"
    by (rule roundHalfEven_nonneg)
  then have "0 \<le> (of_int (roundHalfEven (x / pow2 q)) :: rat) * pow2 q"
    using pow2_pos [of q] by simp
  then show ?thesis
    by (simp add: flPos_def Let_def q_def)
qed

lemma fl_minus: "fl (- x) = jsneg (fl x)"
  by (simp add: fl_def jsneg_jsneg)

lemma jsabs_fl: "jsabs (fl x) = fl \<bar>x\<bar>"
  by (simp add: fl_def jsabs_jsneg jsabs_flPos)

lemma jssub_swap: "jssub b a = jsneg (jssub a b)"
proof (cases a; cases b)
  fix x y assume "a = Fin x" "b = Fin y"
  then show ?thesis
    using fl_minus [of "x - y"] by simp
qed simp_all

lemma jsdiv_jsneg: "jsdiv (jsneg a) b = jsneg (jsdiv a b)"
proof (cases a; cases b)
  fix x y assume "a = Fin x" "b = Fin y"
  then show ?thesis
    using fl_minus [of "x / y"] by (simp add: infinity_def)
qed (simp_all add: infinity_def)

lemma jsmul_jsabs_100: "jsmul (jsabs a) (Fin 100) = jsabs (jsmul a (Fin 100))"
  by (cases a) (simp_all add: infinity_def jsabs_fl abs_mult)

lemma returnPercentChangeOf_eq:
  "returnPercentChangeOf currentValue lastValue
     = jsabs (percentChangeOf lastValue currentValue)"
proof -
  have "jsabs (jsdiv (jssub currentValue lastValue) lastValue)
          = jsabs (jsdiv (jssub lastValue currentValue) lastValue)"
    using jssub_swap [of currentValue lastValue]
    by (simp add: jsdiv_jsneg jsabs_jsneg)
  then show ?thesis
    by (simp add: returnPercentChangeOf_def percentChangeOf_def jsmul_jsabs_100)
qed

lemma jslt_asym: "jslt a b \<Longrightarrow> \<not> jslt b a"
  by (cases a; cases b) simp_all

section \<open>Evaluating on numerals\<close>

text \<open>
  The recursive equations of \<open>bitlen\<close> and \<open>digitsOf\<close> as conditional rules, which rewrite a
  numeral and nothing else.
\<close>

lemma bitlen_pos: "0 < x \<Longrightarrow> bitlen x = bitlen (x div 2) + 1"
  using compute_bitlen [of x] by simp

lemma bitlen_nonpos: "x \<le> 0 \<Longrightarrow> bitlen x = 0"
  using compute_bitlen [of x] by simp

lemma digitsOf_small: "n < 10 \<Longrightarrow> digitsOf n = [''0123456789'' ! n]"
  by (subst digitsOf.simps) simp

lemma digitsOf_big:
  "10 \<le> n \<Longrightarrow> digitsOf n = digitsOf (n div 10) @ [''0123456789'' ! (n mod 10)]"
  by (subst digitsOf.simps) simp

lemma floor_rat_numeral: "\<lfloor>numeral a / numeral b :: rat\<rfloor> = numeral a div numeral b"
  using floor_divide_of_int_eq [of "numeral a" "numeral b", where ?'a = rat] by simp

lemma ceiling_rat_numeral:
  "\<lceil>numeral a / numeral b :: rat\<rceil> = - (- numeral a div numeral b)"
  using ceiling_divide_eq_div [of "numeral a" "numeral b", where ?'a = rat] by simp

lemmas fl_eval =
  fl_def flPos_def ilog2_def roundHalfEven_def pow2_def bitlen_pos bitlen_nonpos Let_def
  floor_rat_numeral ceiling_rat_numeral

lemmas toFixed_eval = pointBefore_def digitsOf_small digitsOf_big floor_rat_numeral

text \<open>
  The rounding at values whose binary64 neighbours are known: \<open>0.1\<close> and \<open>0.3\<close>, the sum
  \<open>0.1 + 0.2\<close> that is not \<open>0.3\<close>, and ties above \<open>2^53\<close> going to the even neighbour.
\<close>

lemma fl_tenth: "fl (1 / 10) = Fin (3602879701896397 / 2 ^ 55)"
  by (simp add: fl_eval)

lemma fl_three_tenths: "fl (3 / 10) = Fin (5404319552844595 / 2 ^ 54)"
  by (simp add: fl_eval)

lemma fl_sum_tenths:
  "fl (3602879701896397 / 2 ^ 55 + 3602879701896397 / 2 ^ 54)
     = Fin (5404319552844596 / 2 ^ 54)"
  by (simp add: fl_eval)

lemma fl_tie_to_even:
  "fl 9007199254740993 = Fin 9007199254740992"
  "fl 9007199254740995 = Fin 9007199254740996"
  by (simp_all add: fl_eval)

lemma percentChangeOf_100_100: "percentChangeOf (Fin 100) (Fin 100) = Fin 0"
  by (simp add: percentChangeOf_def fl_eval)

lemma percentChangeOf_100_80: "percentChangeOf (Fin 100) (Fin 80) = Fin 20"
  by (simp add: percentChangeOf_def fl_eval)

lemma percentChangeOf_80_100: "percentChangeOf (Fin 80) (Fin 100) = Fin (- 25)"
  by (simp add: percentChangeOf_def fl_eval)

lemma returnPercentChangeOf_100_100: "returnPercentChangeOf (Fin 100) (Fin 100) = Fin 0"
  by (simp add: returnPercentChangeOf_def fl_eval)

lemma toFixed_25: "toFixed 2 (Fin 25) = Fixed ''25.00''"
  by (simp add: toFixed_eval)

lemma toFixed_20: "toFixed 2 (Fin 20) = Fixed ''20.00''"
  by (simp add: toFixed_eval)

lemma toFixed_80: "toFixed 3 (Fin 80) = Fixed ''80.000''"
  by (simp add: toFixed_eval)

lemma toFixed_100: "toFixed 3 (Fin 100) = Fixed ''100.000''"
  by (simp add: toFixed_eval)

section \<open>One event, one sensor\<close>

lemma eventsOf_append: "eventsOf sid (xs @ ys) = eventsOf sid xs @ eventsOf sid ys"
  by (induction sid xs rule: eventsOf.induct) simp_all

lemma evaluate_sensor: "snd (evaluate sid t p v a) = Some fd \<Longrightarrow> sensor fd = sid"
  by (auto simp: evaluate_def mkFlickerData_def Let_def split: option.splits if_splits)

lemma channelStep_sensor: "snd (channelStep sid t v l a) = Some fd \<Longrightarrow> sensor fd = sid"
  by (auto simp: channelStep_def dest: evaluate_sensor split: option.splits)

lemma processSensor_same:
  "lastValues (fst (processSensor t d sid so)) sid = Some (d sid)"
  "activeFlickers (fst (processSensor t d sid so)) sid
     = fst (channelStep sid t (d sid) (lastValues (fst so) sid) (activeFlickers (fst so) sid))"
  "snd (processSensor t d sid so)
     = snd so
       @ (case snd (channelStep sid t (d sid) (lastValues (fst so) sid)
                      (activeFlickers (fst so) sid)) of
            None \<Rightarrow> [] | Some fd \<Rightarrow> [LogFlicker fd])"
  "flickerCount (fst (processSensor t d sid so)) sid
     = flickerCount (fst so) sid
       + (case snd (channelStep sid t (d sid) (lastValues (fst so) sid)
                      (activeFlickers (fst so) sid)) of
            None \<Rightarrow> 0 | Some fd \<Rightarrow> 1)"
  by (simp_all add: processSensor_def channelStep_def Let_def split: option.splits prod.splits)

lemma processSensor_other:
  assumes "sid' \<noteq> sid"
  shows "lastValues (fst (processSensor t d sid so)) sid' = lastValues (fst so) sid'"
    and "activeFlickers (fst (processSensor t d sid so)) sid' = activeFlickers (fst so) sid'"
    and "flickerCount (fst (processSensor t d sid so)) sid' = flickerCount (fst so) sid'"
    and "eventsOf sid' (snd (processSensor t d sid so)) = eventsOf sid' (snd so)"
proof -
  have ev: "eventsOf sid' [LogFlicker fd] = []"
    if "snd (channelStep sid t (d sid) (lastValues (fst so) sid)
               (activeFlickers (fst so) sid)) = Some fd"
    for fd
    using channelStep_sensor [OF that] assms by simp
  show "lastValues (fst (processSensor t d sid so)) sid' = lastValues (fst so) sid'"
    and "activeFlickers (fst (processSensor t d sid so)) sid' = activeFlickers (fst so) sid'"
    and "flickerCount (fst (processSensor t d sid so)) sid' = flickerCount (fst so) sid'"
    using assms
    by (simp_all add: processSensor_def Let_def split: option.splits prod.splits)
  show "eventsOf sid' (snd (processSensor t d sid so)) = eventsOf sid' (snd so)"
    using ev by (simp add: processSensor_same(3) eventsOf_append split: option.splits)
qed

text \<open>
  The effect of \<open>handleSensorData\<close>, in a running session, on the entries of one sensor: the
  other sensor's pass over the loop body leaves them alone.
\<close>

lemma handle_lastValues:
  "lastValues (fst (handleSensorData True t d s)) sid = Some (d sid)"
  by (cases sid)
     (simp_all add: handleSensorData_def Let_def processSensor_other processSensor_same)

lemma handle_activeFlickers:
  "activeFlickers (fst (handleSensorData True t d s)) sid
     = fst (channelStep sid t (d sid) (lastValues s sid) (activeFlickers s sid))"
  by (cases sid)
     (simp_all add: handleSensorData_def Let_def processSensor_other processSensor_same)

lemma eventsOf_own:
  "eventsOf sid (case snd (channelStep sid t v l a) of None \<Rightarrow> [] | Some fd \<Rightarrow> [LogFlicker fd])
     = (case snd (channelStep sid t v l a) of None \<Rightarrow> [] | Some fd \<Rightarrow> [fd])"
  by (auto split: option.splits dest: channelStep_sensor)

lemma handle_eventsOf:
  "eventsOf sid (snd (handleSensorData True t d s))
     = (case snd (channelStep sid t (d sid) (lastValues s sid) (activeFlickers s sid)) of
          None \<Rightarrow> [] | Some fd \<Rightarrow> [fd])"
proof (cases sid)
  case sensor1
  have "eventsOf sensor1 (snd (handleSensorData True t d s))
          = eventsOf sensor1 (snd (processSensor t d sensor1 (s\<lparr>sensorData := d\<rparr>, [])))"
    by (simp add: handleSensorData_def Let_def eventsOf_append processSensor_other(4))
  also have "\<dots> = (case snd (channelStep sensor1 t (d sensor1) (lastValues s sensor1)
                               (activeFlickers s sensor1)) of
                      None \<Rightarrow> [] | Some fd \<Rightarrow> [fd])"
    by (simp add: processSensor_same(3) eventsOf_own)
  finally show ?thesis
    using sensor1 by simp
next
  case sensor2
  have "eventsOf sensor2 (snd (handleSensorData True t d s))
          = eventsOf sensor2 (snd (processSensor t d sensor1 (s\<lparr>sensorData := d\<rparr>, [])))
            @ (case snd (channelStep sensor2 t (d sensor2) (lastValues s sensor2)
                           (activeFlickers s sensor2)) of
                 None \<Rightarrow> [] | Some fd \<Rightarrow> [fd])"
    by (simp add: handleSensorData_def Let_def eventsOf_append processSensor_same(3)
          processSensor_other(1,2) eventsOf_own)
  also have "eventsOf sensor2 (snd (processSensor t d sensor1 (s\<lparr>sensorData := d\<rparr>, []))) = []"
    by (simp add: processSensor_other(4))
  finally show ?thesis
    using sensor2 by simp
qed

lemma handle_flickerCount:
  "flickerCount (fst (handleSensorData True t d s)) sid
     = flickerCount s sid + length (eventsOf sid (snd (handleSensorData True t d s)))"
  unfolding handle_eventsOf
  by (cases sid)
     (simp_all add: handleSensorData_def Let_def processSensor_other processSensor_same
        split: option.splits)

lemma handle_not_running:
  "handleSensorData False t d s = (s\<lparr>sensorData := d\<rparr>, [])"
  by (simp add: handleSensorData_def)

section \<open>Sequences of events\<close>

lemma deliver_append:
  "deliver running (xs @ ys) s
     = (fst (deliver running ys (fst (deliver running xs s))),
        snd (deliver running xs s) @ snd (deliver running ys (fst (deliver running xs s))))"
  by (induction xs arbitrary: s) (simp_all add: Let_def)

lemma handle_count_any:
  "flickerCount (fst (handleSensorData running t d s)) sid
     = flickerCount s sid + length (eventsOf sid (snd (handleSensorData running t d s)))"
  by (cases running) (simp_all add: handle_flickerCount [symmetric] handle_not_running)

lemma deliver_count:
  "flickerCount (fst (deliver running es s)) sid
     = flickerCount s sid + length (eventsOf sid (snd (deliver running es s)))"
  by (induction es arbitrary: s) (simp_all add: Let_def eventsOf_append handle_count_any)

lemma handle_events_le1:
  "length (eventsOf sid (snd (handleSensorData running t d s))) \<le> 1"
  by (cases running) (simp_all add: handle_eventsOf handle_not_running split: option.splits)

text \<open>One event on a sensor whose run is open, by whether the reading has returned.\<close>

lemma updateFlicker_keeps:
  "startTime (updateFlicker p v r) = startTime r"
  "initialValue (updateFlicker p v r) = initialValue r"
  by (simp_all add: updateFlicker_def)

lemma channelStep_open:
  "channelStep sid t v (Some p) (Some r)
     = (if jslt (returnPercentChangeOf v (initialValue r)) FLICKER_THRESHOLD
        then (None, Some (mkFlickerData sid t (updateFlicker p v r)))
        else (Some (updateFlicker p v r), None))"
  by (simp add: channelStep_def evaluate_def startOfFlicker_def endOfFlicker_def Let_def
        updateFlicker_keeps)

lemma channelStep_closed:
  "channelStep sid t v (Some p) None
     = (if jsgt (jsabs (percentChangeOf p v)) FLICKER_THRESHOLD
        then (Some \<lparr>startTime = t, initialValue = p, minValue = v,
                    maxPercentChange = jsabs (percentChangeOf p v)\<rparr>, None)
        else (None, None))"
proof -
  have same: "jsmin v v = v" "jsmax a a = a" for a
    by (simp_all add: jsmin_def jsmax_def)
  have "\<not> jslt (returnPercentChangeOf v p) FLICKER_THRESHOLD"
    if "jsgt (jsabs (percentChangeOf p v)) FLICKER_THRESHOLD"
    using that jslt_asym by (simp add: returnPercentChangeOf_eq jsgt_def)
  then show ?thesis
    by (simp add: channelStep_def evaluate_def startOfFlicker_def endOfFlicker_def Let_def
          updateFlicker_def same)
qed

lemma channelStep_first: "channelStep sid t v None a = (a, None)"
  by (simp add: channelStep_def)

lemma stays_open:
  assumes "activeFlickers s sid = Some r" and "lastValues s sid \<noteq> None"
    and "\<forall>e \<in> set us.
           \<not> jslt (returnPercentChangeOf (snd e sid) (initialValue r)) FLICKER_THRESHOLD"
  shows "\<exists>r'. activeFlickers (fst (deliver True us s)) sid = Some r'
              \<and> startTime r' = startTime r \<and> initialValue r' = initialValue r
              \<and> lastValues (fst (deliver True us s)) sid \<noteq> None
              \<and> eventsOf sid (snd (deliver True us s)) = []"
  using assms
proof (induction us arbitrary: s r)
  case Nil
  then show ?case by simp
next
  case (Cons e us)
  obtain p where p: "lastValues s sid = Some p"
    using Cons.prems(2) by blast
  let ?s1 = "fst (handleSensorData True (fst e) (snd e) s)"
  let ?r1 = "updateFlicker p (snd e sid) r"
  have far: "\<not> jslt (returnPercentChangeOf (snd e sid) (initialValue r)) FLICKER_THRESHOLD"
    using Cons.prems(3) by simp
  have a1: "activeFlickers ?s1 sid = Some ?r1"
    by (simp add: handle_activeFlickers p Cons.prems(1) channelStep_open far)
  have e1: "eventsOf sid (snd (handleSensorData True (fst e) (snd e) s)) = []"
    by (simp add: handle_eventsOf p Cons.prems(1) channelStep_open far)
  have l1: "lastValues ?s1 sid \<noteq> None"
    by (simp add: handle_lastValues)
  have rest: "\<forall>e \<in> set us.
      \<not> jslt (returnPercentChangeOf (snd e sid) (initialValue ?r1)) FLICKER_THRESHOLD"
    using Cons.prems(3) by (simp add: updateFlicker_keeps)
  from Cons.IH [OF a1 l1 rest] obtain r' where
    "activeFlickers (fst (deliver True us ?s1)) sid = Some r'"
    "startTime r' = startTime ?r1" "initialValue r' = initialValue ?r1"
    "lastValues (fst (deliver True us ?s1)) sid \<noteq> None"
    "eventsOf sid (snd (deliver True us ?s1)) = []"
    by blast
  then show ?case
    using e1 by (simp add: Let_def eventsOf_append updateFlicker_keeps)
qed

section \<open>What a recipe leaves in the trace and in the state\<close>

lemma awaitInvoke_trace:
  "trace (snd (awaitInvoke invoke ch arg w)) = trace w @ [Invoke ch arg]"
  by (simp add: awaitInvoke_def Let_def)

lemma awaitInvoke_fst:
  "fst (awaitInvoke invoke ch arg w) = fst (invoke ch arg (mainProc w))"
  by (simp add: awaitInvoke_def Let_def)

lemma awaitInvoke_renderer:
  "renderer (snd (awaitInvoke invoke ch arg w)) = renderer w"
  by (simp add: awaitInvoke_def Let_def)

lemma onRenderer_trace: "trace (onRenderer f w) = trace w"
  by (simp add: onRenderer_def)

lemma onRenderer_renderer: "renderer (onRenderer f w) = f (renderer w)"
  by (simp add: onRenderer_def)

lemmas setters = setStatus_def setIsRunningRecipe_def setIsFlickerDetectionRunning_def

lemma awaitInvoke_cases:
  obtains (rejected) message w' where
      "awaitInvoke invoke ch arg w = (Inl message, w')"
      "trace w' = trace w @ [Invoke ch arg]" "renderer w' = renderer w"
      "fst (invoke ch arg (mainProc w)) = Inl message"
  | (resolved) result w' where
      "awaitInvoke invoke ch arg w = (Inr result, w')"
      "trace w' = trace w @ [Invoke ch arg]" "renderer w' = renderer w"
      "fst (invoke ch arg (mainProc w)) = Inr result"
proof (cases "fst (invoke ch arg (mainProc w))")
  case (Inl message)
  then show ?thesis
    by (intro rejected [of message "snd (awaitInvoke invoke ch arg w)"])
       (simp_all add: awaitInvoke_def Let_def)
next
  case (Inr result)
  then show ?thesis
    by (intro resolved [of result "snd (awaitInvoke invoke ch arg w)"])
       (simp_all add: awaitInvoke_def Let_def)
qed

lemma resolves_not_rejected:
  "resolves invoke \<Longrightarrow> fst (invoke ch arg m) \<noteq> Inl message"
  unfolding resolves_def by (metis sum.distinct(1))

lemma toggle_facts:
  "trace (snd (toggleFlickerDetection invoke running w))
     = trace w @ [Invoke (if running then stop_flicker_detection else start_flicker_detection) []]"
  "isRunningRecipe (renderer (snd (toggleFlickerDetection invoke running w)))
     = isRunningRecipe (renderer w)"
  "resolves invoke \<Longrightarrow> fst (toggleFlickerDetection invoke running w) = Inr ()"
proof -
  let ?ch = "if running then stop_flicker_detection else start_flicker_detection"
  have unfold: "toggleFlickerDetection invoke running w
      = (case awaitInvoke invoke ?ch [] w of
           (Inl message, w') \<Rightarrow> (Inl message, w')
         | (Inr result, w') \<Rightarrow>
             if success result
             then (Inr (),
                   if running
                   then setStatus ''Flicker Detection Stopped''
                          (setIsFlickerDetectionRunning False w')
                   else onRenderer resetFlickerDetection
                          (setStatus ''Flicker Detection Running''
                             (setIsFlickerDetectionRunning True w')))
             else (Inr (), setStatus (errorText result) w'))"
    by (simp add: toggleFlickerDetection_def split: prod.splits sum.splits)
  show "trace (snd (toggleFlickerDetection invoke running w)) = trace w @ [Invoke ?ch []]"
    unfolding unfold
    by (cases rule: awaitInvoke_cases [of invoke ?ch "[]" w])
       (simp_all add: setters onRenderer_trace)
  show "isRunningRecipe (renderer (snd (toggleFlickerDetection invoke running w)))
          = isRunningRecipe (renderer w)"
    unfolding unfold
    by (cases rule: awaitInvoke_cases [of invoke ?ch "[]" w])
       (simp_all add: setters onRenderer_renderer resetFlickerDetection_def)
  show "fst (toggleFlickerDetection invoke running w) = Inr ()" if "resolves invoke"
    unfolding unfold
    using resolves_not_rejected [OF that]
    by (cases rule: awaitInvoke_cases [of invoke ?ch "[]" w]) simp_all
qed

lemma sendCommand_facts:
  "trace (snd (sendCommand invoke c w)) = trace w @ [Invoke send_command c]"
  "isRunningRecipe (renderer (snd (sendCommand invoke c w))) = isRunningRecipe (renderer w)"
  "resolves invoke \<Longrightarrow> fst (sendCommand invoke c w) = Inr ()"
proof -
  show "trace (snd (sendCommand invoke c w)) = trace w @ [Invoke send_command c]"
    by (cases rule: awaitInvoke_cases [of invoke send_command c w])
       (simp_all add: sendCommand_def)
  show "isRunningRecipe (renderer (snd (sendCommand invoke c w)))
          = isRunningRecipe (renderer w)"
    by (cases rule: awaitInvoke_cases [of invoke send_command c w])
       (simp_all add: sendCommand_def)
  show "fst (sendCommand invoke c w) = Inr ()" if "resolves invoke"
    using resolves_not_rejected [OF that]
    by (cases rule: awaitInvoke_cases [of invoke send_command c w])
       (simp_all add: sendCommand_def)
qed

lemma runStep_trace:
  "trace (snd (runStep invoke running st w)) = trace w @ stepEvents running st"
  by (cases st) (simp_all add: toggle_facts(1) sendCommand_facts(1) awaitTimeout_def)

lemma runStep_isRunningRecipe:
  "isRunningRecipe (renderer (snd (runStep invoke running st w))) = isRunningRecipe (renderer w)"
  by (cases st)
     (simp_all add: toggle_facts(2) sendCommand_facts(2) awaitTimeout_def)

lemma runStep_resolves:
  "resolves invoke \<Longrightarrow> fst (runStep invoke running st w) = Inr ()"
  by (cases st) (simp_all add: toggle_facts(3) sendCommand_facts(3))

lemma iteration_trace:
  "trace (snd (iteration invoke running st w))
     = trace w @ stepEvents running st @ (if fst (iteration invoke running st w)
                                          then [Timeout 100] else [])"
  using runStep_trace [of invoke running st w]
  by (cases "runStep invoke running st w")
     (auto simp: iteration_def awaitTimeout_def setters onRenderer_trace split: sum.splits)

lemma iteration_isRunningRecipe:
  "isRunningRecipe (renderer (snd (iteration invoke running st w)))
     = isRunningRecipe (renderer w)"
  using runStep_isRunningRecipe [of invoke running st w]
  by (cases "runStep invoke running st w")
     (auto simp: iteration_def awaitTimeout_def setters onRenderer_renderer split: sum.splits)

lemma iteration_resolves:
  "resolves invoke \<Longrightarrow> fst (iteration invoke running st w)"
  using runStep_resolves [of invoke running st w]
  by (cases "runStep invoke running st w") (auto simp: iteration_def split: sum.splits)

lemma recipeEvents_simps:
  "recipeEvents running [] = []"
  "recipeEvents running (st # steps)
     = stepEvents running st @ Timeout 100 # recipeEvents running steps"
  "recipeEvents running (xs @ ys) = recipeEvents running xs @ recipeEvents running ys"
  by (simp_all add: recipeEvents_def)

lemma runSteps_trace_resolves:
  "resolves invoke \<Longrightarrow>
     trace (runSteps invoke running steps w) = trace w @ recipeEvents running steps"
proof (induction steps arbitrary: w)
  case Nil
  then show ?case by (simp add: recipeEvents_simps)
next
  case (Cons st steps)
  have go: "fst (iteration invoke running st w)"
    using Cons.prems by (rule iteration_resolves)
  then show ?case
    using Cons.IH [OF Cons.prems, of "snd (iteration invoke running st w)"]
      iteration_trace [of invoke running st w]
    by (simp add: Let_def recipeEvents_simps)
qed

lemma runSteps_trace:
  "\<exists>k \<le> length steps.
     trace (runSteps invoke running steps w)
       = trace w @ recipeEvents running (take k steps)
         @ (if k < length steps then stepEvents running (steps ! k) else [])"
proof (induction steps arbitrary: w)
  case Nil
  then show ?case by (simp add: recipeEvents_simps)
next
  case (Cons st steps)
  show ?case
  proof (cases "fst (iteration invoke running st w)")
    case False
    then have "trace (runSteps invoke running (st # steps) w)
                 = trace w @ recipeEvents running (take 0 (st # steps))
                   @ (if 0 < length (st # steps) then stepEvents running ((st # steps) ! 0)
                      else [])"
      using iteration_trace [of invoke running st w]
      by (simp add: Let_def recipeEvents_simps)
    then show ?thesis
      by (intro exI [of _ 0]) simp
  next
    case True
    from Cons.IH [of "snd (iteration invoke running st w)"] obtain k where
      k: "k \<le> length steps"
      "trace (runSteps invoke running steps (snd (iteration invoke running st w)))
         = trace (snd (iteration invoke running st w)) @ recipeEvents running (take k steps)
           @ (if k < length steps then stepEvents running (steps ! k) else [])"
      by blast
    have "trace (runSteps invoke running (st # steps) w)
            = trace w @ recipeEvents running (take (Suc k) (st # steps))
              @ (if Suc k < length (st # steps) then stepEvents running ((st # steps) ! Suc k)
                 else [])"
      using True k(2) iteration_trace [of invoke running st w]
      by (simp add: Let_def recipeEvents_simps)
    then show ?thesis
      using k(1) by (intro exI [of _ "Suc k"]) simp
  qed
qed

lemma runRecipe_trace:
  "trace (runRecipe invoke w)
     = trace (runSteps invoke (isFlickerDetectionRunning (renderer w)) (recipe (renderer w))
                (setIsRunningRecipe True w))"
  "trace (setIsRunningRecipe b w) = trace w"
  by (simp_all add: runRecipe_def setters onRenderer_trace)

section \<open>Reset\<close>

text \<open>
  C9. \<open>resetFlickerDetection\<close> leaves, from every state, both entries of \<open>lastValues\<close> and of
  \<open>activeFlickers\<close> at \<open>null\<close> and both flicker counts at zero; the rest of the state is
  untouched.
\<close>

theorem reset_restores_initial:
  "lastValues (resetFlickerDetection s) sensor1 = None
   \<and> lastValues (resetFlickerDetection s) sensor2 = None
   \<and> activeFlickers (resetFlickerDetection s) sensor1 = None
   \<and> activeFlickers (resetFlickerDetection s) sensor2 = None
   \<and> flickerCount (resetFlickerDetection s) sensor1 = 0
   \<and> flickerCount (resetFlickerDetection s) sensor2 = 0
   \<and> resetFlickerDetection s
       = s\<lparr>lastValues := lastValues initialApp,
            activeFlickers := activeFlickers initialApp,
            flickerCount := flickerCount initialApp\<rparr>"
  by (simp add: resetFlickerDetection_def initialApp_def)

section \<open>One open run per sensor\<close>

text \<open>
  C4. A sensor's entry of \<open>activeFlickers\<close> holds at most one run. Whatever the state, one
  \<open>sensor-data\<close> event does not replace an open run by a new one: a run that is open is
  afterwards either cleared or still the run with the same start time and initial value.
  An event logged for the sensor leaves the sensor's entry cleared, and one \<open>sensor-data\<close>
  event logs at most one event per sensor.
\<close>

theorem one_open_run_per_sensor:
  "(activeFlickers s sid = Some r \<longrightarrow>
      activeFlickers (fst (handleSensorData running t d s)) sid = None
      \<or> (\<exists>r'. activeFlickers (fst (handleSensorData running t d s)) sid = Some r'
                \<and> startTime r' = startTime r \<and> initialValue r' = initialValue r))
   \<and> (eventsOf sid (snd (handleSensorData running t d s)) \<noteq> [] \<longrightarrow>
        activeFlickers (fst (handleSensorData running t d s)) sid = None)
   \<and> length (eventsOf sid (snd (handleSensorData running t d s))) \<le> 1"
proof (cases running)
  case False
  then show ?thesis
    by (simp add: handle_not_running)
next
  case True
  show ?thesis
  proof (cases "lastValues s sid")
    case None
    then show ?thesis
      using True by (simp add: handle_activeFlickers handle_eventsOf channelStep_first)
  next
    case (Some p)
    show ?thesis
    proof (cases "activeFlickers s sid")
      case None
      then show ?thesis
        using True Some
        by (simp add: handle_activeFlickers handle_eventsOf channelStep_closed)
    next
      case (Some r0)
      then show ?thesis
        using True \<open>lastValues s sid = Some p\<close>
        by (simp add: handle_activeFlickers handle_eventsOf channelStep_open
              updateFlicker_keeps)
    qed
  qed
qed

section \<open>The flicker count\<close>

lemma handle_events_close:
  "length (eventsOf sid (snd (handleSensorData running t d s)))
     = (if closesRun sid s (fst (handleSensorData running t d s)) then 1 else 0)"
proof (cases running)
  case False
  then show ?thesis
    by (auto simp: handle_not_running closesRun_def)
next
  case True
  show ?thesis
  proof (cases "lastValues s sid")
    case None
    then show ?thesis
      using True
      by (auto simp: handle_activeFlickers handle_eventsOf channelStep_first closesRun_def)
  next
    case (Some p)
    show ?thesis
    proof (cases "activeFlickers s sid")
      case None
      then show ?thesis
        using True Some
        by (auto simp: handle_activeFlickers handle_eventsOf channelStep_closed closesRun_def)
    next
      case (Some r)
      then show ?thesis
        using True \<open>lastValues s sid = Some p\<close>
        by (auto simp: handle_activeFlickers handle_eventsOf channelStep_open closesRun_def)
    qed
  qed
qed

lemma deliver_events_close:
  "length (eventsOf sid (snd (deliver running es s))) = closedRuns running sid es s"
  by (induction es arbitrary: s) (simp_all add: Let_def eventsOf_append handle_events_close)

text \<open>
  C5. A run of a sensor closes at a \<open>sensor-data\<close> event when the sensor's entry of
  \<open>activeFlickers\<close> holds a run before the event and \<open>null\<close> after it. From any state, one
  event raises the sensor's flicker count by one when it closes a run of the sensor and
  leaves the count alone otherwise; over any sequence of events the count grows by exactly
  the number of events at which a run of the sensor closes, so it never goes down, and from
  a reset state it equals the number of runs closed since the reset. One \<open>flickerData\<close> is
  logged per closed run. \<open>resetFlickerDetection\<close> puts the count back to zero.
\<close>

theorem flickerCount_counts_closed_runs:
  "flickerCount (fst (handleSensorData running t d s)) sid
     = flickerCount s sid
       + (if closesRun sid s (fst (handleSensorData running t d s)) then 1 else 0)
   \<and> flickerCount (fst (deliver running es s)) sid
       = flickerCount s sid + closedRuns running sid es s
   \<and> flickerCount (fst (deliver running es (resetFlickerDetection s))) sid
       = closedRuns running sid es (resetFlickerDetection s)
   \<and> length (eventsOf sid (snd (deliver running es s))) = closedRuns running sid es s
   \<and> flickerCount (resetFlickerDetection s) sid = 0"
proof -
  have zero: "flickerCount (resetFlickerDetection s) sid = 0"
    by (simp add: resetFlickerDetection_def)
  have one: "flickerCount (fst (handleSensorData running t d s)) sid
               = flickerCount s sid
                 + (if closesRun sid s (fst (handleSensorData running t d s)) then 1 else 0)"
    using handle_count_any [of running t d s sid] handle_events_close [of sid running t d s]
    by simp
  have many: "flickerCount (fst (deliver running es s')) sid
                = flickerCount s' sid + closedRuns running sid es s'" for s'
    using deliver_count [of running es s' sid] deliver_events_close [of sid running es s']
    by simp
  show ?thesis
    using zero one many [of s] many [of "resetFlickerDetection s"]
      deliver_events_close [of sid running es s]
    by simp
qed

section \<open>When a run closes\<close>

text \<open>
  C6. Let a run \<open>r\<close> be open on a sensor after a \<open>sensor-data\<close> event. If the readings of
  the following events \<open>us\<close> all fail the return test
  \<open>|(v - initialValue) / initialValue| * 100 < FLICKER_THRESHOLD\<close> against \<open>r\<close>'s initial value and
  the reading of the next event passes it, then the run is still open, with the start time and
  initial value of \<open>r\<close>, after every one of the events \<open>us\<close>, nothing is logged for the sensor
  during them, and the passing event logs exactly one \<open>flickerData\<close>, carrying \<open>r\<close>'s start
  time and initial value and ending at that event, and clears the run.
\<close>

theorem run_closes_at_first_return:
  assumes "activeFlickers (fst (handleSensorData True ti di s0)) sid = Some r"
    and "\<forall>e \<in> set us.
           \<not> jslt (returnPercentChangeOf (snd e sid) (initialValue r)) FLICKER_THRESHOLD"
    and "jslt (returnPercentChangeOf (d sid) (initialValue r)) FLICKER_THRESHOLD"
  shows "(\<forall>k \<le> length us. \<exists>r'.
            activeFlickers (fst (deliver True (take k us)
                                   (fst (handleSensorData True ti di s0)))) sid = Some r'
            \<and> startTime r' = startTime r \<and> initialValue r' = initialValue r)
         \<and> eventsOf sid (snd (deliver True us (fst (handleSensorData True ti di s0)))) = []
         \<and> (\<exists>fd. eventsOf sid (snd (handleSensorData True t d
                       (fst (deliver True us (fst (handleSensorData True ti di s0)))))) = [fd]
                 \<and> fdStartTime fd = startTime r \<and> endTime fd = t
                 \<and> fdInitialValue fd = toFixed 3 (initialValue r))
         \<and> activeFlickers (fst (deliver True (us @ [(t, d)])
                                  (fst (handleSensorData True ti di s0)))) sid = None"
proof -
  let ?s = "fst (handleSensorData True ti di s0)"
  have last: "lastValues ?s sid \<noteq> None"
    by (simp add: handle_lastValues)
  have between: "\<exists>r'. activeFlickers (fst (deliver True (take k us) ?s)) sid = Some r'
                      \<and> startTime r' = startTime r \<and> initialValue r' = initialValue r"
    for k
  proof -
    have "\<forall>e \<in> set (take k us).
            \<not> jslt (returnPercentChangeOf (snd e sid) (initialValue r)) FLICKER_THRESHOLD"
      using assms(2) by (meson in_set_takeD)
    from stays_open [OF assms(1) last this] show ?thesis
      by blast
  qed
  from stays_open [OF assms(1) last assms(2)] obtain r' p where
    r': "activeFlickers (fst (deliver True us ?s)) sid = Some r'"
      "startTime r' = startTime r" "initialValue r' = initialValue r"
    and p: "lastValues (fst (deliver True us ?s)) sid = Some p"
    and quiet: "eventsOf sid (snd (deliver True us ?s)) = []"
    by blast
  have step: "channelStep sid t (d sid) (Some p) (Some r')
                = (None, Some (mkFlickerData sid t (updateFlicker p (d sid) r')))"
    using assms(3) by (simp add: channelStep_open r'(3))
  have logged: "eventsOf sid (snd (handleSensorData True t d (fst (deliver True us ?s))))
                  = [mkFlickerData sid t (updateFlicker p (d sid) r')]"
    by (simp add: handle_eventsOf r'(1) p step)
  have fields: "fdStartTime (mkFlickerData sid t (updateFlicker p (d sid) r')) = startTime r"
    "endTime (mkFlickerData sid t (updateFlicker p (d sid) r')) = t"
    "fdInitialValue (mkFlickerData sid t (updateFlicker p (d sid) r'))
       = toFixed 3 (initialValue r)"
    by (simp_all add: mkFlickerData_def updateFlicker_keeps r'(2,3))
  have cleared: "activeFlickers (fst (deliver True (us @ [(t, d)]) ?s)) sid = None"
    by (simp add: deliver_append Let_def handle_activeFlickers r'(1) p step)
  show ?thesis
    using between quiet logged fields cleared by simp
qed

section \<open>A run does not close where it opens\<close>

text \<open>
  C10. At the event that opens a run the return change equals the absolute percent change
  that opened it, which exceeds the threshold; so, for every state and every reading (zero
  or not), a sensor with no open run before a \<open>sensor-data\<close> event has nothing logged at that
  event, and a run opened by the event is still open after it. Hence every logged event
  closes a run that was already open before the event.
\<close>

theorem run_never_closes_where_it_opens:
  "returnPercentChangeOf (d sid) p = jsabs (percentChangeOf p (d sid))
   \<and> (activeFlickers s sid = None \<longrightarrow>
        eventsOf sid (snd (handleSensorData running t d s)) = [])
   \<and> (activeFlickers s sid = None \<and> lastValues s sid = Some p
        \<and> jsgt (jsabs (percentChangeOf p (d sid))) FLICKER_THRESHOLD \<longrightarrow>
        activeFlickers (fst (handleSensorData True t d s)) sid
          = Some \<lparr>startTime = t, initialValue = p, minValue = d sid,
                   maxPercentChange = jsabs (percentChangeOf p (d sid))\<rparr>)"
proof -
  have quiet: "eventsOf sid (snd (handleSensorData running t d s)) = []"
    if "activeFlickers s sid = None"
  proof (cases running)
    case False
    then show ?thesis by (simp add: handle_not_running)
  next
    case True
    then show ?thesis
      using that
      by (cases "lastValues s sid")
         (simp_all add: handle_eventsOf channelStep_first channelStep_closed)
  qed
  show ?thesis
    using quiet
    by (simp add: returnPercentChangeOf_eq handle_activeFlickers channelStep_closed)
qed

section \<open>A dip and its return\<close>

text \<open>
  \<open>handleSensorData\<close> where its body is evaluated (\<open>running\<close> true): sensor 1 reads
  100, 100, 80, 100 from a reset state; the timestamps and the readings of sensor 2 are
  arbitrary. The third reading opens a run; the fourth closes it, and since
  \<open>maxPercentChange\<close> also takes in the closing reading's change from the reading before it,
  25 percent from 80 back to 100, the \<open>flickerData\<close> it builds carries \<open>25.00\<close>.
\<close>

lemma dip_first:
  "lastValues (fst (handleSensorData True t1 (readings (Fin 100) b1)
                      (resetFlickerDetection s))) sensor1 = Some (Fin 100)"
  "activeFlickers (fst (handleSensorData True t1 (readings (Fin 100) b1)
                          (resetFlickerDetection s))) sensor1 = None"
  "eventsOf sensor1 (snd (handleSensorData True t1 (readings (Fin 100) b1)
                            (resetFlickerDetection s))) = []"
  by (simp_all add: handle_lastValues handle_activeFlickers handle_eventsOf channelStep_first
        resetFlickerDetection_def readings_def)

lemma dip_steady:
  assumes "lastValues s sensor1 = Some (Fin 100)" and "activeFlickers s sensor1 = None"
  shows "activeFlickers (fst (handleSensorData True t (readings (Fin 100) b) s)) sensor1 = None"
    and "eventsOf sensor1 (snd (handleSensorData True t (readings (Fin 100) b) s)) = []"
  using assms
  by (simp_all add: handle_activeFlickers handle_eventsOf channelStep_closed readings_def
        percentChangeOf_100_100 jsgt_def FLICKER_THRESHOLD_def)

lemma dip_opens:
  assumes "lastValues s sensor1 = Some (Fin 100)" and "activeFlickers s sensor1 = None"
  shows "activeFlickers (fst (handleSensorData True t (readings (Fin 80) b) s)) sensor1
           = Some \<lparr>startTime = t, initialValue = Fin 100, minValue = Fin 80,
                    maxPercentChange = Fin 20\<rparr>"
    and "eventsOf sensor1 (snd (handleSensorData True t (readings (Fin 80) b) s)) = []"
  using assms
  by (simp_all add: handle_activeFlickers handle_eventsOf channelStep_closed readings_def
        percentChangeOf_100_80 jsgt_def FLICKER_THRESHOLD_def)

lemma dip_closes:
  assumes "lastValues s sensor1 = Some (Fin 80)"
    and "activeFlickers s sensor1
           = Some \<lparr>startTime = t3, initialValue = Fin 100, minValue = Fin 80,
                    maxPercentChange = Fin 20\<rparr>"
  shows "activeFlickers (fst (handleSensorData True t (readings (Fin 100) b) s)) sensor1 = None"
    and "eventsOf sensor1 (snd (handleSensorData True t (readings (Fin 100) b) s))
           = [\<lparr>sensor = sensor1, fdStartTime = t3, endTime = t,
                duration = toFixed 3 (jsdiv (jssub (Fin (of_int t)) (Fin (of_int t3)))
                                        (Fin 1000)),
                fdInitialValue = Fixed ''100.000'', minimumValue = Fixed ''80.000'',
                percentChange = Fixed ''25.00''\<rparr>]"
  using assms
  by (simp_all add: handle_activeFlickers handle_eventsOf channelStep_open readings_def
        returnPercentChangeOf_100_100 percentChangeOf_80_100 FLICKER_THRESHOLD_def
        mkFlickerData_def updateFlicker_def jsmin_def jsmax_def
        toFixed_25 toFixed_80 toFixed_100 del: toFixed.simps)

lemma dip_session:
  fixes s :: app and t1 t2 t3 t4 :: int and b1 b2 b3 b4 :: jsnum
  defines "s1 \<equiv> fst (handleSensorData True t1 (readings (Fin 100) b1)
                         (resetFlickerDetection s))"
  defines "s2 \<equiv> fst (handleSensorData True t2 (readings (Fin 100) b2) s1)"
  defines "s3 \<equiv> fst (handleSensorData True t3 (readings (Fin 80) b3) s2)"
  shows "fst (deliver True [(t1, readings (Fin 100) b1), (t2, readings (Fin 100) b2),
                            (t3, readings (Fin 80) b3)] (resetFlickerDetection s)) = s3"
    and "fst (deliver True [(t1, readings (Fin 100) b1), (t2, readings (Fin 100) b2)]
                (resetFlickerDetection s)) = s2"
    and "lastValues s2 sensor1 = Some (Fin 100)"
    and "activeFlickers s2 sensor1 = None"
    and "activeFlickers s3 sensor1
           = Some \<lparr>startTime = t3, initialValue = Fin 100, minValue = Fin 80,
                    maxPercentChange = Fin 20\<rparr>"
    and "lastValues s3 sensor1 = Some (Fin 80)"
    and "eventsOf sensor1
           (snd (deliver True [(t1, readings (Fin 100) b1), (t2, readings (Fin 100) b2),
                               (t3, readings (Fin 80) b3)] (resetFlickerDetection s))) = []"
    and "eventsOf sensor1
           (snd (deliver True [(t1, readings (Fin 100) b1), (t2, readings (Fin 100) b2),
                               (t3, readings (Fin 80) b3), (t4, readings (Fin 100) b4)]
                   (resetFlickerDetection s)))
           = [\<lparr>sensor = sensor1, fdStartTime = t3, endTime = t4,
                duration = toFixed 3 (jsdiv (jssub (Fin (of_int t4)) (Fin (of_int t3)))
                                        (Fin 1000)),
                fdInitialValue = Fixed ''100.000'', minimumValue = Fixed ''80.000'',
                percentChange = Fixed ''25.00''\<rparr>]"
    and "activeFlickers
           (fst (deliver True [(t1, readings (Fin 100) b1), (t2, readings (Fin 100) b2),
                               (t3, readings (Fin 80) b3), (t4, readings (Fin 100) b4)]
                   (resetFlickerDetection s))) sensor1 = None"
proof -
  have l1: "lastValues s1 sensor1 = Some (Fin 100)" and a1: "activeFlickers s1 sensor1 = None"
    and e1: "eventsOf sensor1 (snd (handleSensorData True t1 (readings (Fin 100) b1)
                                      (resetFlickerDetection s))) = []"
    unfolding s1_def by (rule dip_first)+
  show l2: "lastValues s2 sensor1 = Some (Fin 100)"
    unfolding s2_def by (simp add: handle_lastValues readings_def)
  show "fst (deliver True [(t1, readings (Fin 100) b1), (t2, readings (Fin 100) b2)]
               (resetFlickerDetection s)) = s2"
    by (simp add: Let_def s1_def s2_def)
  have a2e2: "activeFlickers s2 sensor1 = None"
    "eventsOf sensor1 (snd (handleSensorData True t2 (readings (Fin 100) b2) s1)) = []"
    unfolding s2_def by (rule dip_steady [OF l1 a1])+
  show a2: "activeFlickers s2 sensor1 = None"
    by (rule a2e2(1))
  have e2: "eventsOf sensor1 (snd (handleSensorData True t2 (readings (Fin 100) b2) s1)) = []"
    by (rule a2e2(2))
  show l3: "lastValues s3 sensor1 = Some (Fin 80)"
    unfolding s3_def by (simp add: handle_lastValues readings_def)
  show a3: "activeFlickers s3 sensor1
              = Some \<lparr>startTime = t3, initialValue = Fin 100, minValue = Fin 80,
                       maxPercentChange = Fin 20\<rparr>"
    unfolding s3_def by (rule dip_opens [OF l2 a2])
  have e3: "eventsOf sensor1 (snd (handleSensorData True t3 (readings (Fin 80) b3) s2)) = []"
    by (rule dip_opens [OF l2 a2])
  show "fst (deliver True [(t1, readings (Fin 100) b1), (t2, readings (Fin 100) b2),
                           (t3, readings (Fin 80) b3)] (resetFlickerDetection s)) = s3"
    by (simp add: Let_def s1_def s2_def s3_def)
  show "eventsOf sensor1
          (snd (deliver True [(t1, readings (Fin 100) b1), (t2, readings (Fin 100) b2),
                              (t3, readings (Fin 80) b3)] (resetFlickerDetection s))) = []"
    using e1 e2 e3 by (simp add: Let_def eventsOf_append s1_def s2_def)
  show "eventsOf sensor1
          (snd (deliver True [(t1, readings (Fin 100) b1), (t2, readings (Fin 100) b2),
                              (t3, readings (Fin 80) b3), (t4, readings (Fin 100) b4)]
                  (resetFlickerDetection s)))
          = [\<lparr>sensor = sensor1, fdStartTime = t3, endTime = t4,
               duration = toFixed 3 (jsdiv (jssub (Fin (of_int t4)) (Fin (of_int t3)))
                                       (Fin 1000)),
               fdInitialValue = Fixed ''100.000'', minimumValue = Fixed ''80.000'',
               percentChange = Fixed ''25.00''\<rparr>]"
    using e1 e2 e3 dip_closes(2) [OF l3 a3, of t4 b4]
    by (simp add: Let_def eventsOf_append s1_def s2_def s3_def)
  show "activeFlickers
          (fst (deliver True [(t1, readings (Fin 100) b1), (t2, readings (Fin 100) b2),
                              (t3, readings (Fin 80) b3), (t4, readings (Fin 100) b4)]
                  (resetFlickerDetection s))) sensor1 = None"
    using dip_closes(1) [OF l3 a3, of t4 b4]
    by (simp add: Let_def s1_def s2_def s3_def)
qed

section \<open>The listener as registered\<close>


lemma receive_inert:
  "snd (receive es s) = []"
  "lastValues (fst (receive es s)) = lastValues s"
  "activeFlickers (fst (receive es s)) = activeFlickers s"
  "flickerCount (fst (receive es s)) = flickerCount s"
proof -
  have "snd (deliver False es s) = [] \<and> lastValues (fst (deliver False es s)) = lastValues s
      \<and> activeFlickers (fst (deliver False es s)) = activeFlickers s
      \<and> flickerCount (fst (deliver False es s)) = flickerCount s"
    by (induction es arbitrary: s) (simp_all add: Let_def handle_not_running)
  then show "snd (receive es s) = []"
    and "lastValues (fst (receive es s)) = lastValues s"
    and "activeFlickers (fst (receive es s)) = activeFlickers s"
    and "flickerCount (fst (receive es s)) = flickerCount s"
    by (simp_all add: receive_def initialApp_def)
qed

lemma receive_append:
  "fst (receive (xs @ ys) s) = fst (receive ys (fst (receive xs s)))"
  by (simp add: receive_def deliver_append)

lemma startedSession_facts:
  "isFlickerDetectionRunning (renderer startedSession)"
  "isFlickerDetectionActive (mainProc startedSession)"
  "lastValues (renderer startedSession) = (\<lambda>_. None)"
  "activeFlickers (renderer startedSession) = (\<lambda>_. None)"
  "flickerCount (renderer startedSession) = (\<lambda>_. 0)"
  by (simp_all add: startedSession_def connectedWorld_def openPort_def quietEnv_def
        initialApp_def toggleFlickerDetection_def awaitInvoke_def mainInvoke_def
        startFlickerDetectionHandler_def succeeded_def setters onRenderer_def
        resetFlickerDetection_def Let_def)

text \<open>
  C1, in a started session. A port is open and \<open>toggleFlickerDetection\<close> has started
  a session: \<open>isFlickerDetectionRunning\<close> is true in the renderer,
  \<open>isFlickerDetectionActive\<close> in the main process, and the detection state is freshly reset.
  Sensor 1 then reads 100, 100, 80, 100. The listener registered for \<open>sensor-data\<close> still
  reads the \<open>isFlickerDetectionRunning\<close> of the first render, which is false, and skips the
  whole body of \<open>handleSensorData\<close>: nothing is invoked, so no event is logged; no baseline
  is recorded, no run is opened, and the count of sensor 1 stays 0.
\<close>

theorem started_session_logs_nothing:
  "isFlickerDetectionRunning (renderer startedSession)
   \<and> isFlickerDetectionActive (mainProc startedSession)
   \<and> snd (receive dipSession (renderer startedSession)) = []
   \<and> eventsOf sensor1 (snd (receive dipSession (renderer startedSession))) = []
   \<and> lastValues (fst (receive (take 1 dipSession) (renderer startedSession))) sensor1 = None
   \<and> activeFlickers (fst (receive (take 3 dipSession) (renderer startedSession))) sensor1
       = None
   \<and> flickerCount (fst (receive dipSession (renderer startedSession))) sensor1 = 0"
  by (simp add: receive_inert startedSession_facts)

section \<open>A zero prior value\<close>

lemma percentChangeOf_zero_zero: "percentChangeOf (Fin 0) (Fin 0) = NaN"
  by (simp add: percentChangeOf_def fl_def)

lemma percentChangeOf_zero_nonzero:
  assumes "x \<noteq> 0" and "fl x = Fin x"
  shows "jsabs (percentChangeOf (Fin 0) (Fin x)) = PosInf"
proof -
  have "jssub (Fin 0) (Fin x) = Fin (- x)"
    using fl_minus [of x] assms(2) by simp
  then show ?thesis
    using assms(1) by (simp add: percentChangeOf_def infinity_def)
qed

lemma never_returns_to_zero:
  "\<not> jslt (returnPercentChangeOf v (Fin 0)) FLICKER_THRESHOLD"
proof -
  have "returnPercentChangeOf v (Fin 0) = NaN \<or> returnPercentChangeOf v (Fin 0) = PosInf"
  proof (cases v)
    case (Fin x)
    then show ?thesis
      by (cases "fl x") (simp_all add: returnPercentChangeOf_def infinity_def)
  qed (simp_all add: returnPercentChangeOf_def infinity_def)
  then show ?thesis
    by (auto simp: FLICKER_THRESHOLD_def)
qed

text \<open>
  The body of \<open>handleSensorData\<close> has no test for a zero prior value. Where it is evaluated
  (\<open>running\<close> true), the percent change after the prior value 0 is NaN for the reading 0 and
  infinite for any other Number; on a sensor with no open run the reading 0 opens no run,
  and a reading other than 0 opens a run with \<open>initialValue = 0\<close>, which no later reading
  closes.
\<close>

lemma zero_prior_value_in_the_body:
  assumes "lastValues s sid = Some (Fin 0)" and "activeFlickers s sid = None"
  shows "(d sid = Fin 0 \<longrightarrow>
            percentChangeOf (Fin 0) (d sid) = NaN
            \<and> activeFlickers (fst (handleSensorData True t d s)) sid = None
            \<and> eventsOf sid (snd (handleSensorData True t d s)) = []
            \<and> flickerCount (fst (handleSensorData True t d s)) sid = flickerCount s sid)
         \<and> (\<forall>x. d sid = Fin x \<and> x \<noteq> 0 \<and> fl x = Fin x \<longrightarrow>
               jsabs (percentChangeOf (Fin 0) (d sid)) = PosInf
               \<and> activeFlickers (fst (handleSensorData True t d s)) sid
                   = Some \<lparr>startTime = t, initialValue = Fin 0, minValue = Fin x,
                            maxPercentChange = PosInf\<rparr>
               \<and> eventsOf sid (snd (handleSensorData True t d s)) = [])
         \<and> (\<forall>v. \<not> jslt (returnPercentChangeOf v (Fin 0)) FLICKER_THRESHOLD)"
proof -
  have zero: "percentChangeOf (Fin 0) (d sid) = NaN
      \<and> activeFlickers (fst (handleSensorData True t d s)) sid = None
      \<and> eventsOf sid (snd (handleSensorData True t d s)) = []
      \<and> flickerCount (fst (handleSensorData True t d s)) sid = flickerCount s sid"
    if "d sid = Fin 0"
    using that assms
    by (simp add: handle_flickerCount handle_activeFlickers handle_eventsOf
          channelStep_closed percentChangeOf_zero_zero jsgt_def FLICKER_THRESHOLD_def)
  have nonzero: "jsabs (percentChangeOf (Fin 0) (d sid)) = PosInf
      \<and> activeFlickers (fst (handleSensorData True t d s)) sid
          = Some \<lparr>startTime = t, initialValue = Fin 0, minValue = Fin x,
                   maxPercentChange = PosInf\<rparr>
      \<and> eventsOf sid (snd (handleSensorData True t d s)) = []"
    if "d sid = Fin x" "x \<noteq> 0" "fl x = Fin x" for x
    using that assms percentChangeOf_zero_nonzero [OF that(2,3)]
    by (simp add: handle_activeFlickers handle_eventsOf channelStep_closed jsgt_def
          FLICKER_THRESHOLD_def)
  show ?thesis
    using zero nonzero never_returns_to_zero by blast
qed



section \<open>The theorems at the dip\<close>

lemma dipSession_take:
  "take 2 dipSession = [(0, readings (Fin 100) (Fin 7)), (100, readings (Fin 100) (Fin 7))]"
  "take 3 dipSession = [(0, readings (Fin 100) (Fin 7)), (100, readings (Fin 100) (Fin 7)),
                        (200, readings (Fin 80) (Fin 7))]"
  by (simp_all add: dipSession_def)

lemma dip_state2:
  "lastValues (fst (deliver True (take 2 dipSession) (resetFlickerDetection initialApp)))
     sensor1 = Some (Fin 100)"
  "activeFlickers (fst (deliver True (take 2 dipSession) (resetFlickerDetection initialApp)))
     sensor1 = None"
  unfolding dipSession_take
  by (simp_all only: dip_session(2) dip_session(3) dip_session(4))

lemma dip_state3:
  "lastValues (fst (deliver True (take 3 dipSession) (resetFlickerDetection initialApp)))
     sensor1 = Some (Fin 80)"
  "activeFlickers (fst (deliver True (take 3 dipSession) (resetFlickerDetection initialApp)))
     sensor1
     = Some \<lparr>startTime = 200, initialValue = Fin 100, minValue = Fin 80,
              maxPercentChange = Fin 20\<rparr>"
  unfolding dipSession_take
  by (simp_all only: dip_session(1) dip_session(5) dip_session(6))

text \<open>The run of the dip, open after the third event, is closed and cleared by the fourth.\<close>

theorem one_open_run_per_sensor_witness:
  "activeFlickers (fst (deliver True (take 3 dipSession) (resetFlickerDetection initialApp)))
     sensor1
     = Some \<lparr>startTime = 200, initialValue = Fin 100, minValue = Fin 80,
              maxPercentChange = Fin 20\<rparr>
   \<and> eventsOf sensor1
        (snd (handleSensorData True 300 (readings (Fin 100) (Fin 7))
                (fst (deliver True (take 3 dipSession) (resetFlickerDetection initialApp)))))
       \<noteq> []
   \<and> activeFlickers
        (fst (handleSensorData True 300 (readings (Fin 100) (Fin 7))
                (fst (deliver True (take 3 dipSession) (resetFlickerDetection initialApp)))))
        sensor1 = None"
proof -
  let ?s3 = "fst (deliver True (take 3 dipSession) (resetFlickerDetection initialApp))"
  have logged: "eventsOf sensor1 (snd (handleSensorData True 300 (readings (Fin 100) (Fin 7)) ?s3))
                  \<noteq> []"
    using dip_closes(2) [OF dip_state3, of 300 "Fin 7"] by simp
  show ?thesis
    using one_open_run_per_sensor [of ?s3 sensor1 _ True 300 "readings (Fin 100) (Fin 7)"]
      dip_state3(2) logged
    by blast
qed

text \<open>The third event of the dip opens the run and logs nothing.\<close>

theorem run_never_closes_where_it_opens_witness:
  "activeFlickers (fst (deliver True (take 2 dipSession) (resetFlickerDetection initialApp)))
     sensor1 = None
   \<and> lastValues (fst (deliver True (take 2 dipSession) (resetFlickerDetection initialApp)))
       sensor1 = Some (Fin 100)
   \<and> jsgt (jsabs (percentChangeOf (Fin 100) (readings (Fin 80) (Fin 7) sensor1)))
        FLICKER_THRESHOLD
   \<and> eventsOf sensor1
        (snd (handleSensorData True 200 (readings (Fin 80) (Fin 7))
                (fst (deliver True (take 2 dipSession) (resetFlickerDetection initialApp)))))
       = []
   \<and> activeFlickers
        (fst (handleSensorData True 200 (readings (Fin 80) (Fin 7))
                (fst (deliver True (take 2 dipSession) (resetFlickerDetection initialApp)))))
        sensor1
       = Some \<lparr>startTime = 200, initialValue = Fin 100, minValue = Fin 80,
                maxPercentChange = Fin 20\<rparr>"
proof -
  let ?s2 = "fst (deliver True (take 2 dipSession) (resetFlickerDetection initialApp))"
  have exceeds: "jsgt (jsabs (percentChangeOf (Fin 100) (readings (Fin 80) (Fin 7) sensor1)))
                   FLICKER_THRESHOLD"
    by (simp add: readings_def percentChangeOf_100_80 jsgt_def FLICKER_THRESHOLD_def)
  have v: "readings (Fin 80) (Fin 7) sensor1 = Fin 80"
    by (simp add: readings_def)
  show ?thesis
    using run_never_closes_where_it_opens
            [of "readings (Fin 80) (Fin 7)" sensor1 "Fin 100" ?s2 True 200]
      dip_state2 exceeds
    by (simp add: v percentChangeOf_100_80)
qed

lemma returnPercentChangeOf_85_100: "returnPercentChangeOf (Fin 85) (Fin 100) = Fin 15"
  by (simp add: returnPercentChangeOf_def fl_eval)

text \<open>
  After the dip to 80 the reading 85 is still 15 percent from 100 and keeps the run open;
  the reading 100 closes it.
\<close>

theorem run_closes_at_first_return_witness:
  "activeFlickers
     (fst (handleSensorData True 200 (readings (Fin 80) (Fin 7))
             (fst (deliver True (take 2 dipSession) (resetFlickerDetection initialApp)))))
     sensor1
     = Some \<lparr>startTime = 200, initialValue = Fin 100, minValue = Fin 80,
              maxPercentChange = Fin 20\<rparr>
   \<and> \<not> jslt (returnPercentChangeOf (readings (Fin 85) (Fin 7) sensor1) (Fin 100))
          FLICKER_THRESHOLD
   \<and> jslt (returnPercentChangeOf (readings (Fin 100) (Fin 7) sensor1) (Fin 100))
        FLICKER_THRESHOLD
   \<and> eventsOf sensor1
        (snd (deliver True [(300, readings (Fin 85) (Fin 7))]
                (fst (handleSensorData True 200 (readings (Fin 80) (Fin 7))
                        (fst (deliver True (take 2 dipSession)
                                (resetFlickerDetection initialApp))))))) = []
   \<and> activeFlickers
        (fst (deliver True ([(300, readings (Fin 85) (Fin 7))]
                            @ [(400, readings (Fin 100) (Fin 7))])
                (fst (handleSensorData True 200 (readings (Fin 80) (Fin 7))
                        (fst (deliver True (take 2 dipSession)
                                (resetFlickerDetection initialApp)))))))
        sensor1 = None"
proof -
  let ?s2 = "fst (deliver True (take 2 dipSession) (resetFlickerDetection initialApp))"
  let ?r = "\<lparr>startTime = 200, initialValue = Fin 100, minValue = Fin 80,
             maxPercentChange = Fin 20\<rparr>"
  have opened: "activeFlickers (fst (handleSensorData True 200 (readings (Fin 80) (Fin 7)) ?s2))
                  sensor1 = Some ?r"
    by (rule dip_opens(1) [OF dip_state2])
  have far: "\<not> jslt (returnPercentChangeOf (readings (Fin 85) (Fin 7) sensor1) (Fin 100))
                 FLICKER_THRESHOLD"
    by (simp add: readings_def returnPercentChangeOf_85_100 FLICKER_THRESHOLD_def)
  have returned: "jslt (returnPercentChangeOf (readings (Fin 100) (Fin 7) sensor1) (Fin 100))
                FLICKER_THRESHOLD"
    by (simp add: readings_def returnPercentChangeOf_100_100 FLICKER_THRESHOLD_def)
  have between: "\<forall>e \<in> set [(300 :: int, readings (Fin 85) (Fin 7))].
      \<not> jslt (returnPercentChangeOf (snd e sensor1) (initialValue ?r)) FLICKER_THRESHOLD"
    using far by simp
  have passes: "jslt (returnPercentChangeOf (readings (Fin 100) (Fin 7) sensor1)
                        (initialValue ?r)) FLICKER_THRESHOLD"
    using returned by simp
  from run_closes_at_first_return
         [where d = "readings (Fin 100) (Fin 7)" and t = 400, OF opened between passes]
  show ?thesis
    using opened far returned by blast
qed

section \<open>The order of a recipe\<close>

text \<open>
  C7. \<open>runRecipe\<close> takes the steps in the order of the recipe, one at a time. When every
  invocation resolves, what it awaits is, step after step, the step's own events followed by
  the 100 ms timer; in particular a step \<open>delay d\<close> awaits a timer of \<open>d * 1000\<close> ms and then the
  100 ms timer before anything of the next step. When an invocation rejects, what was awaited
  is still that of a prefix of the recipe, in order, ending with the rejected invocation.
\<close>

theorem recipe_runs_in_order:
  fixes w :: "'m world" and invoke :: "'m ipc"
  defines "running \<equiv> isFlickerDetectionRunning (renderer w)"
    and "steps \<equiv> recipe (renderer w)"
  shows "(resolves invoke \<longrightarrow>
            trace (runRecipe invoke w) = trace w @ recipeEvents running steps)
    \<and> (resolves invoke \<and> steps = pre @ delay d # post \<longrightarrow>
          trace (runRecipe invoke w)
            = trace w @ recipeEvents running pre @ [Timeout (d * 1000), Timeout 100]
              @ recipeEvents running post)
    \<and> (\<exists>k \<le> length steps.
          trace (runRecipe invoke w)
            = trace w @ recipeEvents running (take k steps)
              @ (if k < length steps then stepEvents running (steps ! k) else []))"
proof -
  have all: "trace (runRecipe invoke w) = trace w @ recipeEvents running steps"
    if "resolves invoke"
    using runSteps_trace_resolves [OF that, of running steps "setIsRunningRecipe True w"]
    by (simp add: runRecipe_trace running_def steps_def)
  have prefix: "\<exists>k \<le> length steps.
          trace (runRecipe invoke w)
            = trace w @ recipeEvents running (take k steps)
              @ (if k < length steps then stepEvents running (steps ! k) else [])"
    using runSteps_trace [of steps invoke running "setIsRunningRecipe True w"]
    by (simp add: runRecipe_trace running_def steps_def)
  show ?thesis
    using all prefix by (simp add: recipeEvents_simps)
qed

lemma mainInvoke_resolves: "resolves (mainInvoke e)"
  unfolding resolves_def
proof (intro allI)
  fix ch arg m
  show "\<exists>r. fst (mainInvoke e ch arg m) = Inr r"
    by (cases ch) (simp_all add: mainInvoke_def Let_def)
qed

text \<open>The recipe \<open>connectUSB\<close>, \<open>delay 5\<close>, \<open>disconnectUSB\<close> against the handlers of \<open>main.js\<close>.\<close>

theorem recipe_runs_in_order_witness:
  "resolves (mainInvoke quietEnv)
   \<and> recipe (renderer (recipeWorld [connectUSB, delay 5, disconnectUSB]))
       = [connectUSB] @ delay 5 # [disconnectUSB]
   \<and> trace (runRecipe (mainInvoke quietEnv)
               (recipeWorld [connectUSB, delay 5, disconnectUSB]))
       = [Invoke send_command ''c'', Timeout 100, Timeout 5000, Timeout 100,
          Invoke send_command ''d'', Timeout 100]"
proof -
  let ?w = "recipeWorld [connectUSB, delay 5, disconnectUSB]"
  have steps: "recipe (renderer ?w) = [connectUSB] @ delay 5 # [disconnectUSB]"
    by (simp add: recipeWorld_def)
  have start: "trace ?w = []"
    by (simp add: recipeWorld_def)
  show ?thesis
    using recipe_runs_in_order [of "mainInvoke quietEnv" ?w "[connectUSB]" 5 "[disconnectUSB]"]
      mainInvoke_resolves [of quietEnv] steps start
    by (simp add: recipeEvents_simps)
qed

section \<open>A step that throws\<close>

text \<open>
  When a step throws, that is when the promise it awaits rejects, the loop is left at once:
  the status becomes \<open>Recipe Error:\<close> and the message, no later step runs, no 100 ms timer is
  awaited, and \<open>isRunningRecipe\<close> is false at the end.
\<close>

lemma rejection_stops_recipe:
  assumes "runStep invoke running st w = (Inl message, w')"
  shows "runSteps invoke running (st # rest) w = setStatus (''Recipe Error: '' @ message) w'"
    and "trace (runSteps invoke running (st # rest) w) = trace w @ stepEvents running st"
  using assms runStep_trace [of invoke running st w]
  by (simp_all add: iteration_def Let_def setters onRenderer_trace)

lemma runRecipe_not_running: "\<not> isRunningRecipe (renderer (runRecipe invoke w))"
  by (simp add: runRecipe_def setters onRenderer_renderer)

section \<open>A step that reports failure\<close>

text \<open>
  C3, at a recipe whose first step fails. No port is open, so the handler of \<open>send-command\<close>
  answers \<open>{success: false, error: 'Serial port is not open'}\<close> to \<open>connectUSB\<close>. \<open>runRecipe\<close>
  drops the answer: it waits its 100 ms and runs \<open>startFlicker\<close>, which invokes
  \<open>start-flicker-detection\<close>. The status never shows the failure of \<open>send-command\<close>; at the end it
  is the failure of the later step.
\<close>

theorem failed_connect_does_not_stop_recipe:
  "fst (mainInvoke quietEnv send_command ''c'' closedPort)
     = Inr (failed ''Serial port is not open'')
   \<and> trace (runRecipe (mainInvoke quietEnv) (recipeWorld [connectUSB, startFlicker]))
       = [Invoke send_command ''c'', Timeout 100,
          Invoke start_flicker_detection [], Timeout 100]
   \<and> status (renderer (runRecipe (mainInvoke quietEnv)
                          (recipeWorld [connectUSB, startFlicker])))
       = ''Error: Serial port is not connected''
   \<and> \<not> isRunningRecipe (renderer (runRecipe (mainInvoke quietEnv)
                                      (recipeWorld [connectUSB, startFlicker])))"
  by (simp add: runRecipe_def iteration_def sendCommand_def toggleFlickerDetection_def
        awaitInvoke_def awaitTimeout_def mainInvoke_def sendCommandHandler_def
        startFlickerDetectionHandler_def failed_def errorText_def setters onRenderer_def
        recipeWorld_def closedPort_def initialApp_def Let_def)

section \<open>Two clicks on \<open>Run Recipe\<close>\<close>

text \<open>Left alone, a call started by a click on the button as just rendered computes \<open>runRecipe\<close>.\<close>

lemma drive_idle: "tasks M = [] \<Longrightarrow> drive invoke n M = M"
  by (cases n) simp_all

lemma drive_runSteps:
  "tasks M = [(running, steps)] \<Longrightarrow> steps \<noteq> [] \<Longrightarrow>
     drive invoke (length steps) M
       = M\<lparr>world := setIsRunningRecipe False (runSteps invoke running steps (world M)),
            tasks := []\<rparr>"
proof (induction steps arbitrary: M)
  case Nil
  then show ?case by simp
next
  case (Cons st rest)
  let ?r = "iteration invoke running st (world M)"
  have one: "tasks M = [(running, st # rest)]"
    by (rule Cons.prems(1))
  show ?case
  proof (cases "fst ?r \<and> rest \<noteq> []")
    case True
    let ?M' = "M\<lparr>world := snd ?r, tasks := [(running, rest)]\<rparr>"
    have step: "resume invoke 0 M = ?M'"
      using True one by (simp add: resume_def Let_def)
    have "drive invoke (length rest) ?M'
            = ?M'\<lparr>world := setIsRunningRecipe False (runSteps invoke running rest (world ?M')),
                   tasks := []\<rparr>"
      using True by (intro Cons.IH) simp_all
    then show ?thesis
      using True one step by (simp add: Let_def)
  next
    case False
    have step: "resume invoke 0 M = finish 0 (M\<lparr>world := snd ?r\<rparr>)"
      using False one by (auto simp: resume_def Let_def)
    have idle: "tasks (finish 0 (M\<lparr>world := snd ?r\<rparr>)) = []"
      using one by (simp add: finish_def)
    have result: "runSteps invoke running (st # rest) (world M) = snd ?r"
      using False by (cases rest) (auto simp: Let_def)
    show ?thesis
      using one step drive_idle [OF idle, of invoke "length rest"]
      by (simp add: result finish_def del: runSteps.simps)
  qed
qed

lemma click_then_drive:
  assumes "\<not> isRunningRecipe (renderer w)" and "recipe (renderer w) \<noteq> []"
  shows "world (drive invoke (length (recipe (renderer w)))
                  (clickRunRecipe \<lparr>world = w, rendered = renderer w, tasks = []\<rparr>))
           = runRecipe invoke w"
proof -
  have "tasks (clickRunRecipe \<lparr>world = w, rendered = renderer w, tasks = []\<rparr>)
          = [(isFlickerDetectionRunning (renderer w), recipe (renderer w))]"
    using assms by (simp add: clickRunRecipe_def)
  from drive_runSteps [OF this assms(2), of invoke] show ?thesis
    using assms by (simp add: clickRunRecipe_def runRecipe_def)
qed





end
